theory Spec2Isabelle
  imports Complex_Main "HOL-Library.Sublist" "HOL-Library.Multiset"
begin

section \<open>Catalog (src/index.ts, lines 3-82)\<close>

text \<open>
  The closed string unions of the source become datatypes.  The numbers of the catalog
  are small integers, each of them a double; the fields that hold them are rationals.
\<close>

datatype DiscountType = Family | Student | Reciprocal | WinterOnly

datatype DiscountStrategy = Absolute | Percentage

datatype ItemType =
    Membership
  | FirstLeague
  | SecondLeague
  | ThirdLeague
  | AdditionalLeague
  | BasicIce
  | BasicIceReduced
  | Social

record Sku =
  name :: string
  cost :: rat

text \<open>The field \<open>name\<close> of the source's \<open>Discount\<close> is \<open>discountName\<close> here, since a
  record field of that name exists already.\<close>

record Discount =
  discountName :: string
  discountStrategy :: DiscountStrategy
  discountAmount :: rat

fun items :: "ItemType \<Rightarrow> Sku" where
  "items Membership = \<lparr>name = ''2022-2023 annual base membership'', cost = 135\<rparr>"
| "items FirstLeague = \<lparr>name = ''First league'', cost = 155\<rparr>"
| "items SecondLeague = \<lparr>name = ''Second league'', cost = 155\<rparr>"
| "items ThirdLeague = \<lparr>name = ''Third league'', cost = 155\<rparr>"
| "items AdditionalLeague = \<lparr>name = ''Additional league'', cost = 55\<rparr>"
| "items BasicIce =
     \<lparr>name = ''Basic ice privileges (unlimited sparing and daytime leagues)'', cost = 115\<rparr>"
| "items BasicIceReduced =
     \<lparr>name = ''Basic ice privileges (unlimited sparing and daytime leagues)'', cost = 55\<rparr>"
| "items Social = \<lparr>name = ''Social membership (no dues)'', cost = 50\<rparr>"

fun discounts :: "DiscountType \<Rightarrow> Discount" where
  "discounts Family =
     \<lparr>discountName = ''Family discount'', discountStrategy = Percentage, discountAmount = 5\<rparr>"
| "discounts Student =
     \<lparr>discountName = ''Student discount'', discountStrategy = Percentage, discountAmount = 30\<rparr>"
| "discounts Reciprocal =
     \<lparr>discountName = ''Reciprocal member discount'', discountStrategy = Absolute,
      discountAmount = 75\<rparr>"
| "discounts WinterOnly =
     \<lparr>discountName = ''Winter-only discount'', discountStrategy = Absolute,
      discountAmount = 35\<rparr>"

text \<open>The keys of the \<open>benefits\<close> table (lines 84-106); the wording is not needed.\<close>

datatype Benefit =
    B_roster | B_nameTag | B_social | B_agm | B_bartending | B_dues | B_voting
  | B_buildingAccess | B_ice | B_daytime | B_sparing | B_training | B_rentals
  | B_clubSpiel | B_leagues | B_none

section \<open>JavaScript numbers\<close>

text \<open>
  A JavaScript \<open>number\<close> is an IEEE 754 binary64 value, and \<open>+\<close>, \<open>-\<close>, \<open>*\<close> and \<open>/\<close> give
  the double nearest to the exact result, a tie going to the double with the even
  significand.  A finite double is the rational \<open>n * 2 ^ q\<close> with \<open>\<bar>n\<bar> < 2 ^ 53\<close> and
  \<open>- 1074 \<le> q \<le> 971\<close>.  A \<open>number\<close> is \<open>Some\<close> of that rational, or \<open>None\<close> for a value that
  is not finite (\<open>Infinity\<close>, \<open>-Infinity\<close>, \<open>NaN\<close>): an operation on such a value gives such a
  value again, and \<open>=== 0\<close> is false of it.  The two zeros are one value here; \<open>===\<close> does
  not tell them apart and no operation of this program does.
\<close>

type_synonym number = "rat option"

text \<open>The number of binary digits of a positive integer.\<close>

function bitLength :: "int \<Rightarrow> int" where
  "bitLength n = (if n \<le> 0 then 0 else 1 + bitLength (n div 2))"
  by pat_completeness auto
termination
  by (relation "measure nat") auto

declare bitLength.simps [simp del]

text \<open>\<open>pow2 k\<close> is \<open>2\<close> to the power \<open>k\<close>, for an integer \<open>k\<close> of either sign.\<close>

function pow2 :: "int \<Rightarrow> rat" where
  "pow2 k = (if k = 0 then 1 else if 0 < k then 2 * pow2 (k - 1) else pow2 (k + 1) / 2)"
  by pat_completeness auto
termination
  by (relation "measure (\<lambda>k. nat \<bar>k\<bar>)") auto

declare pow2.simps [simp del]

text \<open>The binary exponent of a positive rational \<open>x\<close>: the \<open>e\<close> with
  \<open>2 ^ e \<le> x < 2 ^ (e + 1)\<close>.\<close>

definition log2Floor :: "rat \<Rightarrow> int" where
  "log2Floor x =
     (if 1 \<le> x then bitLength \<lfloor>x\<rfloor> - 1 else - bitLength (\<lceil>1 / x\<rceil> - 1))"

text \<open>The integer nearest to \<open>m\<close>, the even one of the two when \<open>m\<close> is halfway.\<close>

definition roundTiesToEven :: "rat \<Rightarrow> int" where
  "roundTiesToEven m =
     (let f = \<lfloor>m\<rfloor>; r = m - of_int f
      in if r < 1 / 2 then f else if 1 / 2 < r then f + 1 else if even f then f else f + 1)"

text \<open>
  The double nearest to the exact value \<open>x\<close>.  With \<open>e\<close> the binary exponent of \<open>\<bar>x\<bar>\<close>,
  the doubles around \<open>\<bar>x\<bar>\<close> are the multiples of \<open>2 ^ (e - 52)\<close>, and of \<open>2 ^ (- 1074)\<close> below
  the normal range; a result of \<open>2 ^ 1024\<close> or more overflows.
\<close>

definition toDouble :: "rat \<Rightarrow> number" where
  "toDouble x =
     (if x = 0 then Some 0
      else let e = log2Floor \<bar>x\<bar>;
               q = max e (- 1022) - 52;
               n = roundTiesToEven (\<bar>x\<bar> / pow2 q);
               y = of_int n * pow2 q
           in if 1024 \<le> log2Floor y then None else Some (sgn x * y))"

fun jsAdd :: "number \<Rightarrow> number \<Rightarrow> number" where
  "jsAdd (Some x) (Some y) = toDouble (x + y)"
| "jsAdd _ _ = None"

fun jsSub :: "number \<Rightarrow> number \<Rightarrow> number" where
  "jsSub (Some x) (Some y) = toDouble (x - y)"
| "jsSub _ _ = None"

fun jsMul :: "number \<Rightarrow> number \<Rightarrow> number" where
  "jsMul (Some x) (Some y) = toDouble (x * y)"
| "jsMul _ _ = None"

text \<open>The quotient of two finite numbers; the source divides an amount of the catalog
  by \<open>100\<close> only.\<close>

definition jsDiv :: "rat \<Rightarrow> rat \<Rightarrow> number" where
  "jsDiv x y = (if y = 0 then None else toDouble (x / y))"

section \<open>Cart (lines 192-256)\<close>

fun discountTypeSortValues :: "DiscountStrategy \<Rightarrow> int" where
  "discountTypeSortValues Absolute = 1"
| "discountTypeSortValues Percentage = 2"

text \<open>The comparator handed to \<open>Array.prototype.sort\<close> in \<open>addDiscount\<close>.\<close>

definition compareFn :: "Discount \<Rightarrow> Discount \<Rightarrow> int" where
  "compareFn a b =
     discountTypeSortValues (discountStrategy a) - discountTypeSortValues (discountStrategy b)"

text \<open>
  \<open>Array.prototype.sort\<close> is a stable sort by the comparator (ECMAScript 2019 and later).
  The result of a stable sort is unique, so it is modelled by a stable insertion sort:
  going through the array from the right, each element is put in front of the first
  element that does not compare below it.
\<close>

fun insertSorted :: "Discount \<Rightarrow> Discount list \<Rightarrow> Discount list" where
  "insertSorted x [] = [x]"
| "insertSorted x (y # ys) =
     (if compareFn x y \<le> 0 then x # y # ys else y # insertSorted x ys)"

definition sortDiscounts :: "Discount list \<Rightarrow> Discount list" where
  "sortDiscounts ds = foldr insertSorted ds []"

record Cart =
  cartItems :: "Sku list"
  cartDiscounts :: "Discount list"

definition newCart :: Cart where
  "newCart = \<lparr>cartItems = [], cartDiscounts = []\<rparr>"

definition addItem :: "ItemType \<Rightarrow> Cart \<Rightarrow> Cart" where
  "addItem n c = c\<lparr>cartItems := cartItems c @ [items n]\<rparr>"

definition addDiscount :: "DiscountType \<Rightarrow> Cart \<Rightarrow> Cart" where
  "addDiscount n c = c\<lparr>cartDiscounts := sortDiscounts (cartDiscounts c @ [discounts n])\<rparr>"

definition hasItem :: "ItemType \<Rightarrow> Cart \<Rightarrow> bool" where
  "hasItem n c = (find (\<lambda>i. name i = name (items n)) (cartItems c) \<noteq> None)"

text \<open>\<open>String.prototype.includes\<close>: the second string occurs in the first as a
  contiguous piece.\<close>

fun includes_str :: "string \<Rightarrow> string \<Rightarrow> bool" where
  "includes_str [] t = (t = [])"
| "includes_str (c # s) t = (prefix t (c # s) \<or> includes_str s t)"

definition isLeague :: "Sku \<Rightarrow> bool" where
  "isLeague i = (includes_str (name i) ''league'' \<and> \<not> includes_str (name i) ''daytime'')"

definition getLeagueCount :: "Cart \<Rightarrow> nat" where
  "getLeagueCount c = length (filter isLeague (cartItems c))"

text \<open>The body of the loop over the discounts in \<open>getTotal\<close>.\<close>

fun applyDiscount :: "number \<Rightarrow> Discount \<Rightarrow> number" where
  "applyDiscount grandTotal discount =
     (if discountStrategy discount = Absolute
      then jsSub grandTotal (Some (discountAmount discount))
      else jsMul grandTotal (jsSub (Some 1) (jsDiv (discountAmount discount) 100)))"

definition getTotal :: "Cart \<Rightarrow> number" where
  "getTotal cart =
     (let itemTotal = foldl (\<lambda>p c. jsAdd (Some (cost c)) p) (Some 0) (cartItems cart)
      in foldl applyDiscount itemTotal (cartDiscounts cart))"

text \<open>The accessors return deep copies; a copy of a value is the value.\<close>

definition getItems :: "Cart \<Rightarrow> Sku list" where
  "getItems c = cartItems c"

definition getDiscounts :: "Cart \<Rightarrow> Discount list" where
  "getDiscounts c = cartDiscounts c"

text \<open>A cart is reached from the empty cart by calls of \<open>addItem\<close> and \<open>addDiscount\<close>
  only, its two arrays being private.\<close>

datatype CartCall = AddItem ItemType | AddDiscount DiscountType

fun call :: "Cart \<Rightarrow> CartCall \<Rightarrow> Cart" where
  "call c (AddItem n) = addItem n c"
| "call c (AddDiscount n) = addDiscount n c"

definition build :: "CartCall list \<Rightarrow> Cart" where
  "build cs = foldl call newCart cs"

text \<open>What a sequence of calls hands to the cart, in the order of the calls.\<close>

fun addedItems :: "CartCall list \<Rightarrow> Sku list" where
  "addedItems [] = []"
| "addedItems (AddItem n # cs) = items n # addedItems cs"
| "addedItems (AddDiscount n # cs) = addedItems cs"

fun addedDiscounts :: "CartCall list \<Rightarrow> Discount list" where
  "addedDiscounts [] = []"
| "addedDiscounts (AddItem n # cs) = addedDiscounts cs"
| "addedDiscounts (AddDiscount n # cs) = discounts n # addedDiscounts cs"

section \<open>getCarts (lines 258-372)\<close>

datatype SocialType = Dues | NoDues

text \<open>The league counts are JavaScript numbers; the callers pass integers, and a negative
  one behaves here as in the source (no loop iteration, neither \<open>> 0\<close> nor \<open>=== 0\<close>).
  An optional field is an \<open>option\<close>.  The source's type of \<open>discount\<close> leaves out
  \<open>winterOnly\<close>; with that value no branch of \<open>getCarts\<close> tests true, as with \<open>None\<close>.\<close>

record GetCostParams =
  fallRegularLeagues :: int
  fallDayLeagues :: bool
  fallSpareOnly :: bool
  fallSocial :: "SocialType option"
  winterRegularLeagues :: int
  winterDayLeagues :: bool
  winterSpareOnly :: bool
  winterSocial :: "SocialType option"
  discount :: "DiscountType option"

text \<open>\<open>Array.prototype.shift\<close> returns the first element, or \<open>undefined\<close> on an empty
  array, and removes it.\<close>

fun shift :: "'a list \<Rightarrow> 'a option \<times> 'a list" where
  "shift [] = (None, [])"
| "shift (x # xs) = (Some x, xs)"

text \<open>The operator \<open>??\<close>.\<close>

fun nullish :: "'a option \<Rightarrow> 'a \<Rightarrow> 'a" where
  "nullish None d = d"
| "nullish (Some v) d = v"

text \<open>The loop \<open>for (let i = 0; i < n; ++i) cart.addItem(leagueOrder.shift() ?? "additionalLeague")\<close>,
  on the shared array \<open>leagueOrder\<close> and the cart.\<close>

function addRegularLeagues ::
  "int \<Rightarrow> int \<Rightarrow> ItemType list \<Rightarrow> Cart \<Rightarrow> ItemType list \<times> Cart" where
  "addRegularLeagues i n leagueOrder cart =
     (if i < n
      then addRegularLeagues (i + 1) n (snd (shift leagueOrder))
             (addItem (nullish (fst (shift leagueOrder)) AdditionalLeague) cart)
      else (leagueOrder, cart))"
  by pat_completeness auto
termination
  by (relation "measure (\<lambda>(i, n, leagueOrder, cart). nat (n - i))") auto

declare addRegularLeagues.simps [simp del]

record Carts =
  fall :: Cart
  winter :: Cart

definition getCarts :: "GetCostParams \<Rightarrow> Carts" where
  "getCarts params =
    (let leagueOrder = [FirstLeague, SecondLeague, ThirdLeague];
         fallCart = newCart;
         winterCart = newCart;
         fallCart =
           (if fallDayLeagues params \<or> fallSpareOnly params \<or> fallRegularLeagues params > 0
               \<or> fallSocial params = Some Dues
            then addItem Membership fallCart else fallCart);
         (leagueOrder, fallCart) =
           addRegularLeagues 0 (fallRegularLeagues params) leagueOrder fallCart;
         fallCart =
           (if fallRegularLeagues params = 0
            then (if fallDayLeagues params \<or> fallSpareOnly params
                  then addItem BasicIce fallCart
                  else if fallSocial params = Some NoDues then addItem Social fallCart
                  else fallCart)
            else fallCart);
         fallCart =
           (if length (getItems fallCart) > 0 \<and> hasItem Membership fallCart
            then (let fallCart =
                        (if discount params = Some Reciprocal \<and> getLeagueCount fallCart > 0
                         then addDiscount Reciprocal fallCart else fallCart)
                  in if discount params = Some Family then addDiscount Family fallCart
                     else if discount params = Some Student then addDiscount Student fallCart
                     else fallCart)
            else fallCart);
         winterCart =
           (if \<not> hasItem Membership fallCart
            then (if winterDayLeagues params \<or> winterSpareOnly params
                     \<or> winterRegularLeagues params > 0 \<or> winterSocial params = Some Dues
                  then addDiscount WinterOnly (addItem Membership winterCart)
                  else winterCart)
            else winterCart);
         (leagueOrder, winterCart) =
           addRegularLeagues 0 (winterRegularLeagues params) leagueOrder winterCart;
         winterCart =
           (if winterRegularLeagues params = 0
            then (if winterDayLeagues params \<or> winterSpareOnly params
                  then (if getLeagueCount fallCart \<ge> 3
                        then addItem BasicIceReduced winterCart
                        else addItem BasicIce winterCart)
                  else if winterSocial params = Some NoDues \<and> \<not> hasItem Social fallCart
                          \<and> \<not> hasItem Membership fallCart
                  then addItem Social winterCart
                  else winterCart)
            else winterCart);
         winterCart =
           (if length (getItems winterCart) > 0
            then (let winterCart =
                        (if discount params = Some Reciprocal \<and> hasItem Membership winterCart
                            \<and> \<not> hasItem Membership fallCart \<and> getLeagueCount winterCart > 0
                         then addDiscount Reciprocal winterCart else winterCart)
                  in if discount params = Some Family then addDiscount Family winterCart
                     else if discount params = Some Student then addDiscount Student winterCart
                     else winterCart)
            else winterCart)
     in \<lparr>fall = fallCart, winter = winterCart\<rparr>)"

section \<open>getBenefits (lines 108-186)\<close>

text \<open>The three lists of the result; the fields \<open>fall\<close> and \<open>winter\<close> of the source are
  \<open>fallList\<close> and \<open>winterList\<close> here, \<open>annual\<close> is \<open>annualList\<close>.\<close>

record Benefits =
  fallList :: "Benefit list"
  winterList :: "Benefit list"
  annualList :: "Benefit list"

definition getBenefits :: "Cart \<Rightarrow> Cart \<Rightarrow> Benefits" where
  "getBenefits fallCart winterCart =
    (let fallSocial = hasItem Social fallCart;
         winterSocial = hasItem Social winterCart;
         fallMembership = hasItem Membership fallCart;
         winterMembership = hasItem Membership winterCart;
         fallLeagues = getLeagueCount fallCart;
         winterLeagues = getLeagueCount winterCart;
         fallIce = (hasItem BasicIce fallCart \<or> fallLeagues > 0);
         winterIce = (hasItem BasicIce winterCart \<or> winterLeagues > 0);
         annual = [];
         annual =
           (if fallSocial \<or> winterSocial \<or> fallMembership \<or> winterMembership
            then annual @ [B_roster, B_social, B_agm, B_bartending] else annual);
         annual =
           (if fallMembership \<or> winterMembership
            then (if \<not> list_ex (\<lambda>d. discountName d = ''Reciprocal member discount'')
                          (getDiscounts fallCart)
                     \<and> \<not> list_ex (\<lambda>d. discountName d = ''Reciprocal member discount'')
                            (getDiscounts winterCart)
                  then annual @ [B_dues] else annual) @ [B_voting]
            else annual);
         annual = (if fallIce \<or> winterIce then annual @ [B_clubSpiel] else annual);
         annual =
           (if getTotal fallCart = Some 0 \<and> getTotal winterCart = Some 0
            then annual @ [B_none] else annual);
         fall =
           (if fallIce
            then [B_buildingAccess, B_ice, B_daytime, B_sparing, B_rentals, B_training]
            else []);
         winter =
           (if winterIce
            then [B_buildingAccess, B_ice, B_daytime, B_sparing, B_rentals, B_training]
            else []);
         fall = (if fallLeagues > 0 then fall @ [B_leagues] else fall);
         winter = (if winterLeagues > 0 then winter @ [B_leagues] else winter)
     in \<lparr>fallList = fall, winterList = winter, annualList = annual\<rparr>)"

section \<open>Auxiliary facts\<close>

subsection \<open>Numbers\<close>

text \<open>\<open>pow2\<close> is the power of two, \<open>log2Floor\<close> the binary exponent, and \<open>toDouble\<close>
  rounds to a nearest double.\<close>

lemma pow2_0: "pow2 0 = 1"
  by (simp add: pow2.simps)

lemma pow2_step: "pow2 (k + 1) = 2 * pow2 k"
proof (cases "0 \<le> k")
  case True
  then show ?thesis by (simp add: pow2.simps [of "k + 1"])
next
  case False
  then show ?thesis by (simp add: pow2.simps [of k])
qed

lemma pow2_pos: "0 < pow2 k"
proof (induction k rule: pow2.induct)
  case (1 k)
  then show ?case
    by (cases "k = 0"; cases "0 < k") (simp_all add: pow2.simps [of k] pow2_0)
qed

lemma pow2_step': "pow2 (1 + k) = 2 * pow2 k"
  using pow2_step [of k] by (simp add: add.commute)

lemma pow2_int: "pow2 (int j) = of_int (2 ^ j)"
  by (induction j) (simp_all add: pow2_0 pow2_step')

lemma pow2_back: "pow2 (k - 1) = pow2 k / 2"
  using pow2_step [of "k - 1"] by simp

lemma bitLength_pos: "0 < n \<Longrightarrow> 0 < bitLength n"
proof (induction n rule: bitLength.induct)
  case (1 n)
  then show ?case
    by (cases "0 < n div 2") (simp_all add: bitLength.simps [of n] bitLength.simps [of 0])
qed

lemma bitLength_bounds:
  "0 < n \<Longrightarrow> pow2 (bitLength n - 1) \<le> of_int n \<and> of_int n < pow2 (bitLength n)"
proof (induction n rule: bitLength.induct)
  case (1 n)
  have unfold: "bitLength n = 1 + bitLength (n div 2)"
    using "1.prems" by (simp add: bitLength.simps [of n])
  show ?case
  proof (cases "0 < n div 2")
    case False
    with "1.prems" have "n = 1" by arith
    then show ?thesis
      by (simp add: bitLength.simps [of 1] bitLength.simps [of 0] pow2_0 pow2_step [of 0, simplified])
  next
    case True
    from "1.IH" "1.prems" True
    have ih: "pow2 (bitLength (n div 2) - 1) \<le> of_int (n div 2)"
      "rat_of_int (n div 2) < pow2 (bitLength (n div 2))"
      by simp_all
    have lo: "2 * rat_of_int (n div 2) \<le> of_int n"
    proof -
      have "2 * (n div 2) \<le> n" by arith
      then have "rat_of_int (2 * (n div 2)) \<le> of_int n" by (simp only: of_int_le_iff)
      then show ?thesis by simp
    qed
    have hi: "rat_of_int n + 1 \<le> 2 * (rat_of_int (n div 2) + 1)"
    proof -
      have "n + 1 \<le> 2 * (n div 2 + 1)" by arith
      then have "rat_of_int (n + 1) \<le> of_int (2 * (n div 2 + 1))" by (simp only: of_int_le_iff)
      then show ?thesis by simp
    qed
    have int_lt: "rat_of_int (n div 2) + 1 \<le> pow2 (bitLength (n div 2))"
    proof -
      obtain m where m: "bitLength (n div 2) = int m"
        using bitLength_pos [OF True] by (metis nonneg_int_cases less_imp_le)
      note p = pow2_int
      from ih(2) have "rat_of_int (n div 2) < of_int (2 ^ m)"
        by (simp only: m p)
      then have "n div 2 < 2 ^ m" by (simp only: of_int_less_iff)
      then have "n div 2 + 1 \<le> 2 ^ m" by simp
      then have "rat_of_int (n div 2 + 1) \<le> of_int (2 ^ m)" by (simp only: of_int_le_iff)
      then show ?thesis by (simp add: m p)
    qed
    have s: "pow2 (bitLength (n div 2)) = 2 * pow2 (bitLength (n div 2) - 1)"
      using pow2_step [of "bitLength (n div 2) - 1"] by simp
    have s2: "pow2 (1 + bitLength (n div 2)) = 2 * pow2 (bitLength (n div 2))"
      using pow2_step [of "bitLength (n div 2)"] by (simp add: add.commute)
    show ?thesis
      unfolding unfold using ih lo hi int_lt s s2 by simp
  qed
qed

lemma log2Floor_bounds:
  assumes "0 < x"
  shows "pow2 (log2Floor x) \<le> x \<and> x < pow2 (log2Floor x + 1)"
proof (cases "1 \<le> x")
  case True
  then have n: "0 < \<lfloor>x\<rfloor>" by simp
  from bitLength_bounds [OF n]
  have b: "pow2 (bitLength \<lfloor>x\<rfloor> - 1) \<le> of_int \<lfloor>x\<rfloor>" "rat_of_int \<lfloor>x\<rfloor> < pow2 (bitLength \<lfloor>x\<rfloor>)"
    by simp_all
  obtain m where m: "bitLength \<lfloor>x\<rfloor> = int m"
    using bitLength_pos [OF n] by (metis nonneg_int_cases less_imp_le)
  note p = pow2_int
  from b(2) have "\<lfloor>x\<rfloor> < 2 ^ m"
    unfolding m p by (simp only: of_int_less_iff)
  then have "\<lfloor>x\<rfloor> + 1 \<le> 2 ^ m" by simp
  then have "rat_of_int (\<lfloor>x\<rfloor> + 1) \<le> of_int (2 ^ m)" by (simp only: of_int_le_iff)
  then have up: "x < pow2 (bitLength \<lfloor>x\<rfloor>)"
    unfolding m p using floor_correct [of x] by linarith
  have "pow2 (bitLength \<lfloor>x\<rfloor> - 1) \<le> x"
    using b(1) floor_correct [of x] by linarith
  with up True show ?thesis
    by (simp add: log2Floor_def)
next
  case False
  define y where "y = 1 / x"
  define M where "M = \<lceil>y\<rceil> - 1"
  from False assms have y1: "1 < y" by (simp add: y_def)
  then have M: "0 < M" unfolding M_def by linarith
  from bitLength_bounds [OF M]
  have b: "pow2 (bitLength M - 1) \<le> of_int M" "rat_of_int M < pow2 (bitLength M)"
    by simp_all
  obtain m where m: "bitLength M = int m"
    using bitLength_pos [OF M] by (metis nonneg_int_cases less_imp_le)
  note p = pow2_int
  from b(2) have "M < 2 ^ m"
    unfolding m p by (simp only: of_int_less_iff)
  then have "M + 1 \<le> 2 ^ m" by simp
  then have h1: "rat_of_int (M + 1) \<le> of_int (2 ^ m)" by (simp only: of_int_le_iff)
  have c1: "y \<le> of_int (M + 1)"
    unfolding M_def by simp
  have c2: "rat_of_int M < y"
    unfolding M_def using ceiling_correct [of y] by simp
  from c1 h1 have "y \<le> of_int (2 ^ m)" by linarith
  then have up: "y \<le> pow2 (bitLength M)"
    by (simp only: m p)
  have lo: "pow2 (bitLength M - 1) < y"
    using b(1) c2 by linarith
  have inv: "pow2 (- k) = 1 / pow2 k" for k
  proof (induction k rule: pow2.induct)
    case (1 k)
    show ?case
    proof (cases "k = 0")
      case True
      then show ?thesis by (simp add: pow2_0)
    next
      case nz: False
      show ?thesis
      proof (cases "0 < k")
        case True
        with "1.IH"(1) nz have "pow2 (- (k - 1)) = 1 / pow2 (k - 1)" by simp
        moreover have "pow2 (- (k - 1)) = 2 * pow2 (- k)"
          using pow2_step [of "- k"] by (simp add: add.commute)
        moreover have "pow2 (k - 1) = pow2 k / 2" by (rule pow2_back)
        ultimately show ?thesis by simp
      next
        case False
        with "1.IH"(2) nz have "pow2 (- (k + 1)) = 1 / pow2 (k + 1)" by simp
        moreover have "pow2 (- (k + 1)) = pow2 (- k) / 2"
          using pow2_back [of "- k"] by simp
        moreover have "pow2 (k + 1) = 2 * pow2 k" by (rule pow2_step)
        ultimately show ?thesis by simp
      qed
    qed
  qed
  have xy: "x = 1 / y" by (simp add: y_def)
  have ypos: "0 < y" using y1 by simp
  have a: "pow2 (- bitLength M) \<le> x"
    unfolding inv xy using up ypos pow2_pos [of "bitLength M"]
    by (simp add: frac_le)
  have c: "x < pow2 (- bitLength M + 1)"
  proof -
    have "pow2 (- bitLength M + 1) = 1 / pow2 (bitLength M - 1)"
      using inv [of "bitLength M - 1"] by simp
    moreover have "1 / y < 1 / pow2 (bitLength M - 1)"
      using lo pow2_pos [of "bitLength M - 1"] by (simp add: frac_less2)
    ultimately show ?thesis by (simp add: xy)
  qed
  from a c False show ?thesis
    by (simp add: log2Floor_def y_def M_def)
qed

lemma roundTiesToEven_near: "\<bar>of_int (roundTiesToEven m) - m\<bar> \<le> 1 / 2"
  using floor_correct [of m]
  by (auto simp add: roundTiesToEven_def Let_def)

lemma pow2_powi: "pow2 k = 2 powi k"
proof (cases "0 \<le> k")
  case True
  then obtain j where "k = int j" by (metis nonneg_int_cases)
  then show ?thesis by (simp add: pow2_int)
next
  case False
  then obtain j where j: "k = - int j" by (metis int_cases2 of_nat_0_le_iff)
  have "pow2 (- int j) = 1 / pow2 (int j)"
  proof (induction j)
    case 0
    show ?case by (simp add: pow2_0)
  next
    case (Suc j)
    have "- int (Suc j) = - int j - 1" by simp
    then have "pow2 (- int (Suc j)) = pow2 (- int j) / 2"
      by (simp only: pow2_back)
    also have "\<dots> = 1 / pow2 (int j) / 2" by (simp only: Suc)
    also have "\<dots> = 1 / pow2 (int (Suc j))" by (simp add: pow2_step')
    finally show ?case .
  qed
  then show ?thesis
    by (simp add: j pow2_int power_int_minus field_simps)
qed

lemma pow2_add: "pow2 (a + b) = pow2 a * pow2 b"
  by (simp add: pow2_powi power_int_add)

lemma pow2_mono: "a \<le> b \<Longrightarrow> pow2 a \<le> pow2 b"
  by (simp add: pow2_powi power_int_increasing)

lemma roundTiesToEven_mono_bound:
  "0 \<le> m \<Longrightarrow> m \<le> of_int N \<Longrightarrow> 0 \<le> roundTiesToEven m \<and> roundTiesToEven m \<le> N"
proof -
  assume a: "0 \<le> m" "m \<le> of_int N"
  have f0: "0 \<le> \<lfloor>m\<rfloor>" using a(1) by simp
  have fN: "\<lfloor>m\<rfloor> \<le> N" using a(2) by (simp add: floor_le_iff) 
  have strict: "\<lfloor>m\<rfloor> = N \<Longrightarrow> m - of_int \<lfloor>m\<rfloor> = 0"
    using a(2) floor_correct [of m] by linarith
  have between: "\<lfloor>m\<rfloor> \<le> roundTiesToEven m \<and> roundTiesToEven m \<le> \<lfloor>m\<rfloor> + 1"
    by (simp add: roundTiesToEven_def Let_def)
  show ?thesis
  proof (cases "m - of_int \<lfloor>m\<rfloor> = 0")
    case True
    then have "roundTiesToEven m = \<lfloor>m\<rfloor>"
      by (simp add: roundTiesToEven_def Let_def)
    with f0 fN show ?thesis by simp
  next
    case False
    with strict fN have "\<lfloor>m\<rfloor> < N" by fastforce
    with between f0 show ?thesis by linarith
  qed
qed

text \<open>What \<open>toDouble\<close> returns is a double, within half a unit in the last place of the
  exact value, and below \<open>2 ^ 1024\<close>.\<close>

lemma toDouble_double:
  assumes "toDouble x = Some y"
  shows "\<exists>n. \<bar>n\<bar> \<le> 2 ^ 53 \<and> y = of_int n * pow2 (max (log2Floor \<bar>x\<bar>) (- 1022) - 52)"
proof (cases "x = 0")
  case True
  with assms have "y = 0" by (simp add: toDouble_def)
  then show ?thesis by (intro exI [of _ 0]) simp
next
  case False
  define e where "e = log2Floor \<bar>x\<bar>"
  define q where "q = max e (- 1022) - 52"
  define n where "n = roundTiesToEven (\<bar>x\<bar> / pow2 q)"
  from assms False have y: "y = sgn x * (of_int n * pow2 q)"
    by (simp add: toDouble_def Let_def e_def q_def n_def split: if_splits)
  from False have pos: "0 < \<bar>x\<bar>" by simp
  from log2Floor_bounds [OF pos] have "\<bar>x\<bar> < pow2 (e + 1)"
    by (simp add: e_def)
  also have "pow2 (e + 1) \<le> pow2 (q + 53)"
    by (rule pow2_mono) (simp add: q_def)
  also have "pow2 (q + 53) = pow2 q * of_int (2 ^ 53)"
    using pow2_int [of 53] by (simp add: pow2_add)
  finally have "\<bar>x\<bar> / pow2 q \<le> of_int (2 ^ 53)"
    using pow2_pos [of q] by (simp add: field_simps)
  moreover have "0 \<le> \<bar>x\<bar> / pow2 q"
    using pow2_pos [of q] by simp
  ultimately have n: "0 \<le> n \<and> n \<le> 2 ^ 53"
    unfolding n_def by (rule roundTiesToEven_mono_bound [rotated])
  have "y = of_int (if 0 < x then n else - n) * pow2 q"
    using y False by (simp add: sgn_if)
  moreover have "\<bar>if 0 < x then n else - n\<bar> \<le> 2 ^ 53"
    using n by simp
  ultimately show ?thesis
    unfolding q_def e_def by blast
qed

lemma toDouble_nearest:
  assumes "toDouble x = Some y"
  shows "\<bar>y - x\<bar> \<le> pow2 (max (log2Floor \<bar>x\<bar>) (- 1022) - 52) / 2"
proof (cases "x = 0")
  case True
  with assms have "y = 0" by (simp add: toDouble_def)
  with True show ?thesis using pow2_pos [of "max (log2Floor \<bar>x\<bar>) (- 1022) - 52"] by simp
next
  case False
  define q where "q = max (log2Floor \<bar>x\<bar>) (- 1022) - 52"
  define n where "n = roundTiesToEven (\<bar>x\<bar> / pow2 q)"
  from assms False have y: "y = sgn x * (of_int n * pow2 q)"
    by (simp add: toDouble_def Let_def q_def n_def split: if_splits)
  have x: "x = sgn x * \<bar>x\<bar>" by (simp add: sgn_if)
  have "\<bar>y - x\<bar> = \<bar>sgn x * (of_int n * pow2 q - \<bar>x\<bar>)\<bar>"
    by (subst x) (simp add: y algebra_simps)
  also have "\<dots> = \<bar>of_int n * pow2 q - \<bar>x\<bar>\<bar>"
    using False by (simp add: abs_mult sgn_if)
  also have "\<dots> = \<bar>of_int n - \<bar>x\<bar> / pow2 q\<bar> * pow2 q"
  proof -
    have "of_int n * pow2 q - \<bar>x\<bar> = (of_int n - \<bar>x\<bar> / pow2 q) * pow2 q"
      using pow2_pos [of q] by (simp add: field_simps)
    then show ?thesis
      using pow2_pos [of q] by (simp add: abs_mult)
  qed
  also have "\<dots> \<le> 1 / 2 * pow2 q"
    using roundTiesToEven_near [of "\<bar>x\<bar> / pow2 q"] pow2_pos [of q]
    by (intro mult_right_mono) (simp_all add: n_def)
  finally show ?thesis by (simp add: q_def)
qed


lemma toDouble_finite:
  assumes "toDouble x = Some y"
  shows "\<bar>y\<bar> < pow2 1024"
proof (cases "x = 0")
  case True
  with assms have "y = 0" by (simp add: toDouble_def)
  then show ?thesis using pow2_pos [of 1024] by simp
next
  case False
  define q where "q = max (log2Floor \<bar>x\<bar>) (- 1022) - 52"
  define n where "n = roundTiesToEven (\<bar>x\<bar> / pow2 q)"
  define z where "z = rat_of_int n * pow2 q"
  from assms False have y: "y = sgn x * z" and small: "log2Floor z < 1024"
    by (simp_all add: toDouble_def Let_def q_def n_def z_def split: if_splits)
  have "0 \<le> \<bar>x\<bar> / pow2 q"
    using pow2_pos [of q] by simp
  moreover have "\<bar>x\<bar> / pow2 q \<le> of_int (\<lfloor>\<bar>x\<bar> / pow2 q\<rfloor> + 1)"
    using floor_correct [of "\<bar>x\<bar> / pow2 q"] by simp
  ultimately have "0 \<le> n"
    unfolding n_def using roundTiesToEven_mono_bound by blast
  then have z0: "0 \<le> z"
    using pow2_pos [of q] by (simp add: z_def)
  have "z < pow2 1024"
  proof (cases "z = 0")
    case True
    then show ?thesis using pow2_pos [of 1024] by simp
  next
    case nz: False
    with z0 have "0 < z" by simp
    from log2Floor_bounds [OF this] have "z < pow2 (log2Floor z + 1)" by simp
    also have "\<dots> \<le> pow2 1024"
      using small by (intro pow2_mono) simp
    finally show ?thesis .
  qed
  with z0 False show ?thesis
    by (simp add: y abs_mult sgn_if)
qed

text \<open>Some doubles: \<open>0.05\<close>, and the two ties around \<open>2 ^ 53 + 2\<close>.\<close>

text \<open>An integer of at most 53 bits is a double.\<close>

lemma roundTiesToEven_int: "roundTiesToEven (of_int k) = k"
  by (simp add: roundTiesToEven_def Let_def)

lemma pow2_less_imp: "pow2 a \<le> x \<Longrightarrow> x < pow2 b \<Longrightarrow> a < b"
  using pow2_mono [of b a] by (cases "a < b") simp_all

lemma toDouble_int:
  assumes "\<bar>n\<bar> \<le> 2 ^ 53"
  shows "toDouble (of_int n) = Some (of_int n)"
proof (cases "n = 0")
  case True
  then show ?thesis by (simp add: toDouble_def)
next
  case False
  define a where "a = \<bar>n\<bar>"
  define e where "e = bitLength a - 1"
  from False have a0: "0 < a" by (simp add: a_def)
  then have one: "(1::rat) \<le> of_int a" by simp
  have e: "log2Floor (of_int a) = e"
    using one by (simp add: log2Floor_def e_def)
  from bitLength_bounds [OF a0] have b: "pow2 e \<le> of_int a" "rat_of_int a < pow2 (e + 1)"
    by (simp_all add: e_def)
  have e0: "0 \<le> e"
    using bitLength_pos [OF a0] by (simp add: e_def)
  have a53: "rat_of_int a \<le> pow2 53"
    using assms pow2_int [of 53] by (simp add: a_def)
  have e53: "e \<le> 53"
  proof -
    have "rat_of_int a < pow2 54"
      using a53 pow2_step [of 53] pow2_pos [of 53] by simp
    from pow2_less_imp [OF b(1) this] show ?thesis by simp
  qed
  define q where "q = e - 52"
  have q: "max e (- 1022) - 52 = q"
    using e0 by (simp add: q_def)
  have grid: "\<exists>k. rat_of_int a = of_int k * pow2 q"
  proof (cases "e = 53")
    case True
    then have "pow2 53 \<le> rat_of_int a" using b(1) by simp
    with a53 have "rat_of_int a = pow2 53" by simp
    also have "\<dots> = of_int (2 ^ 52) * pow2 1"
      using pow2_int [of 53] pow2_int [of 1] by simp
    finally show ?thesis using True by (auto simp add: q_def)
  next
    case False
    with e53 have "0 \<le> - q" by (simp add: q_def)
    then obtain j where j: "- q = int j" by (metis nonneg_int_cases)
    have pj: "pow2 (- q) = 2 ^ j"
      using pow2_int [of j] by (simp add: j)
    have "pow2 (- q) * pow2 q = 1"
      using pow2_add [of "- q" q] by (simp add: pow2_0)
    then have one: "2 ^ j * pow2 q = 1"
      by (simp only: pj)
    have "of_int (a * 2 ^ j) * pow2 q = rat_of_int a * (2 ^ j * pow2 q)"
      by simp
    then have "rat_of_int a = of_int (a * 2 ^ j) * pow2 q"
      by (simp only: one mult_1_right)
    then show ?thesis by blast
  qed
  then obtain k where k: "rat_of_int a = of_int k * pow2 q" ..
  have div: "rat_of_int a / pow2 q = of_int k"
    using pow2_pos [of q] by (simp add: k)
  have small: "log2Floor (rat_of_int a) < 1024"
    using e e53 by simp
  have abs: "\<bar>rat_of_int n\<bar> = of_int a"
    by (simp add: a_def)
  have sgn: "sgn (rat_of_int n) * of_int a = of_int n"
    by (simp add: a_def sgn_if)
  have nz: "rat_of_int n \<noteq> 0" using False by simp
  show ?thesis
    unfolding toDouble_def Let_def abs e q div roundTiesToEven_int k [symmetric]
    using e53 nz sgn by simp
qed

lemma toDouble_examples:
  "toDouble (5 / 100) = Some (3602879701896397 / 2 ^ 56)"
  "toDouble 9007199254740993 = Some 9007199254740992"
  "toDouble 9007199254740995 = Some 9007199254740996"
  by code_simp+

subsection \<open>The catalog and the league loop\<close>

lemma isLeague_items:
  "isLeague (items t) = (t = FirstLeague \<or> t = SecondLeague \<or> t = ThirdLeague \<or> t = AdditionalLeague)"
  by (cases t) (simp_all add: isLeague_def)

lemma name_items_eq:
  "(name (items a) = name (items b)) =
     (a = b \<or> (a = BasicIce \<and> b = BasicIceReduced) \<or> (a = BasicIceReduced \<and> b = BasicIce))"
  by (cases a; cases b) simp_all

lemma items_inj: "(items a = items b) = (a = b)"
  by (cases a; cases b) simp_all

lemma discounts_inj: "(discounts a = discounts b) = (a = b)"
  by (cases a; cases b) simp_all

lemma discountName_discounts:
  "(discountName (discounts a) = ''Reciprocal member discount'') = (a = Reciprocal)"
  by (cases a) simp_all

lemma discountStrategy_discounts:
  "discountStrategy (discounts a) = (if a = Family \<or> a = Student then Percentage else Absolute)"
  by (cases a) simp_all

declare items.simps [simp del]
declare discounts.simps [simp del]

lemma addRegularLeagues_closed:
  "addRegularLeagues i n lo c =
     (drop (nat (n - i)) lo,
      c\<lparr>cartItems := cartItems c @
          map items (take (nat (n - i)) lo @ replicate (nat (n - i) - length lo) AdditionalLeague)\<rparr>)"
proof (induction i n lo c rule: addRegularLeagues.induct)
  case (1 i n lo c)
  show ?case
  proof (cases "i < n")
    case False
    then show ?thesis by (simp add: addRegularLeagues.simps [of i n lo c])
  next
    case True
    have k: "nat (n - i) = Suc (nat (n - (i + 1)))"
      using True by arith
    have "addRegularLeagues i n lo c =
        addRegularLeagues (i + 1) n (snd (shift lo))
          (addItem (nullish (fst (shift lo)) AdditionalLeague) c)"
      using True by (simp add: addRegularLeagues.simps [of i n lo c])
    also note "1.IH" [OF True]
    also have "(drop (nat (n - (i + 1))) (snd (shift lo)),
        (addItem (nullish (fst (shift lo)) AdditionalLeague) c)
          \<lparr>cartItems := cartItems (addItem (nullish (fst (shift lo)) AdditionalLeague) c) @
             map items (take (nat (n - (i + 1))) (snd (shift lo)) @
               replicate (nat (n - (i + 1)) - length (snd (shift lo))) AdditionalLeague)\<rparr>) =
      (drop (nat (n - i)) lo,
        c\<lparr>cartItems := cartItems c @
          map items (take (nat (n - i)) lo @ replicate (nat (n - i) - length lo) AdditionalLeague)\<rparr>)"
      unfolding k by (cases lo) (simp_all add: addItem_def)
    finally show ?thesis .
  qed
qed

subsection \<open>Carts that hold catalog entries\<close>

lemma hasItem_map:
  "hasItem n \<lparr>cartItems = map items ts, cartDiscounts = ds\<rparr> =
     list_ex (\<lambda>t. name (items t) = name (items n)) ts"
  by (induction ts) (simp_all add: hasItem_def)

lemma getLeagueCount_map:
  "getLeagueCount \<lparr>cartItems = map items ts, cartDiscounts = ds\<rparr> =
     length (filter (\<lambda>t. t = FirstLeague \<or> t = SecondLeague \<or> t = ThirdLeague \<or> t = AdditionalLeague) ts)"
  by (induction ts) (simp_all add: getLeagueCount_def isLeague_items)

lemma addItem_map:
  "addItem n \<lparr>cartItems = map items ts, cartDiscounts = ds\<rparr> =
     \<lparr>cartItems = map items (ts @ [n]), cartDiscounts = ds\<rparr>"
  by (simp add: addItem_def)

lemma addRegularLeagues_map:
  "addRegularLeagues 0 n lo \<lparr>cartItems = map items ts, cartDiscounts = ds\<rparr> =
     (drop (nat n) lo,
      \<lparr>cartItems = map items (ts @ take (nat n) lo @ replicate (nat n - length lo) AdditionalLeague),
       cartDiscounts = ds\<rparr>)"
  by (simp add: addRegularLeagues_closed)

lemma newCart_map: "newCart = \<lparr>cartItems = map items [], cartDiscounts = []\<rparr>"
  by (simp add: newCart_def)

subsection \<open>The stable sort and the total\<close>

lemma insertSorted_absolute:
  "discountStrategy x = Absolute \<Longrightarrow> insertSorted x ys = x # ys"
  by (cases ys; cases "discountStrategy (hd ys)") (simp_all add: compareFn_def)

lemma insertSorted_percentage:
  "discountStrategy x = Percentage \<Longrightarrow>
   insertSorted x (filter (\<lambda>d. discountStrategy d = Absolute) ys @ zs) =
   filter (\<lambda>d. discountStrategy d = Absolute) ys @ insertSorted x zs"
  by (induction ys) (simp_all add: compareFn_def)

lemma insertSorted_percentage_head:
  "discountStrategy x = Percentage \<Longrightarrow>
   insertSorted x (filter (\<lambda>d. discountStrategy d = Percentage) zs) =
   x # filter (\<lambda>d. discountStrategy d = Percentage) zs"
  by (induction zs) (simp_all add: compareFn_def)

lemma sortDiscounts_partition:
  "sortDiscounts ds =
     filter (\<lambda>d. discountStrategy d = Absolute) ds @
     filter (\<lambda>d. discountStrategy d = Percentage) ds"
proof (induction ds)
  case Nil
  show ?case by (simp add: sortDiscounts_def)
next
  case (Cons x ds)
  have step: "sortDiscounts (x # ds) = insertSorted x (sortDiscounts ds)"
    by (simp add: sortDiscounts_def)
  show ?case
  proof (cases "discountStrategy x")
    case Absolute
    then show ?thesis
      by (simp add: step Cons.IH insertSorted_absolute)
  next
    case Percentage
    then show ?thesis
      by (simp add: step Cons.IH insertSorted_percentage insertSorted_percentage_head)
  qed
qed

lemma filter_absolute_percentage [simp]:
  "filter (\<lambda>d. discountStrategy d = Absolute) (filter (\<lambda>d. discountStrategy d = Percentage) ds) = []"
  "filter (\<lambda>d. discountStrategy d = Percentage) (filter (\<lambda>d. discountStrategy d = Absolute) ds) = []"
  by (induction ds) simp_all

lemma addedItems_append: "addedItems (cs @ cs') = addedItems cs @ addedItems cs'"
  by (induction cs rule: addedItems.induct) simp_all

lemma addedDiscounts_append: "addedDiscounts (cs @ cs') = addedDiscounts cs @ addedDiscounts cs'"
  by (induction cs rule: addedDiscounts.induct) simp_all

lemma build_snoc: "build (cs @ [x]) = call (build cs) x"
  by (simp add: build_def)

lemma cartItems_build: "cartItems (build cs) = addedItems cs"
proof (induction cs rule: rev_induct)
  case Nil
  show ?case by (simp add: build_def newCart_def)
next
  case (snoc x cs)
  then show ?case
    by (cases x) (simp_all add: build_snoc addedItems_append addItem_def addDiscount_def)
qed

lemma cartDiscounts_build: "cartDiscounts (build cs) = sortDiscounts (addedDiscounts cs)"
proof (induction cs rule: rev_induct)
  case Nil
  show ?case by (simp add: build_def newCart_def sortDiscounts_def)
next
  case (snoc x cs)
  then show ?case
    by (cases x)
      (simp_all add: build_snoc addedDiscounts_append addItem_def addDiscount_def
        sortDiscounts_partition)
qed

declare applyDiscount.simps [simp del]

lemma foldl_absolute:
  "foldl applyDiscount t (filter (\<lambda>d. discountStrategy d = Absolute) ds) =
     foldl (\<lambda>t d. jsSub t (Some (discountAmount d))) t
       (filter (\<lambda>d. discountStrategy d = Absolute) ds)"
  by (induction ds arbitrary: t) (simp_all add: applyDiscount.simps)

lemma foldl_percentage:
  "foldl applyDiscount t (filter (\<lambda>d. discountStrategy d = Percentage) ds) =
     foldl (\<lambda>t d. jsMul t (jsSub (Some 1) (jsDiv (discountAmount d) 100))) t
       (filter (\<lambda>d. discountStrategy d = Percentage) ds)"
  by (induction ds arbitrary: t) (simp_all add: applyDiscount.simps)

lemma getTotal_build:
  "getTotal (build cs) =
     foldl (\<lambda>t d. jsMul t (jsSub (Some 1) (jsDiv (discountAmount d) 100)))
       (foldl (\<lambda>t d. jsSub t (Some (discountAmount d)))
          (foldl (\<lambda>p c. jsAdd (Some (cost c)) p) (Some 0) (addedItems cs))
          (filter (\<lambda>d. discountStrategy d = Absolute) (addedDiscounts cs)))
       (filter (\<lambda>d. discountStrategy d = Percentage) (addedDiscounts cs))"
  by (simp add: getTotal_def cartItems_build cartDiscounts_build sortDiscounts_partition
      foldl_absolute foldl_percentage)

text \<open>The catalog holds integers, so the sum of the items and the subtraction of the
  absolute discounts are exact as long as they stay within 53 bits.\<close>

lemma addedDiscounts_catalog: "d \<in> set (addedDiscounts cs) \<Longrightarrow> \<exists>n. d = discounts n"
  by (induction cs rule: addedDiscounts.induct) auto

lemma cost_items_int: "\<exists>k. 0 \<le> k \<and> cost (items t) = of_int k"
proof (cases t)
  case Membership
  then show ?thesis by (intro exI [of _ 135]) (simp add: items.simps)
next
  case FirstLeague
  then show ?thesis by (intro exI [of _ 155]) (simp add: items.simps)
next
  case SecondLeague
  then show ?thesis by (intro exI [of _ 155]) (simp add: items.simps)
next
  case ThirdLeague
  then show ?thesis by (intro exI [of _ 155]) (simp add: items.simps)
next
  case AdditionalLeague
  then show ?thesis by (intro exI [of _ 55]) (simp add: items.simps)
next
  case BasicIce
  then show ?thesis by (intro exI [of _ 115]) (simp add: items.simps)
next
  case BasicIceReduced
  then show ?thesis by (intro exI [of _ 55]) (simp add: items.simps)
next
  case Social
  then show ?thesis by (intro exI [of _ 50]) (simp add: items.simps)
qed

lemma amount_discounts_int: "\<exists>k. 0 \<le> k \<and> discountAmount (discounts t) = of_int k"
proof (cases t)
  case Family
  then show ?thesis by (intro exI [of _ 5]) (simp add: discounts.simps)
next
  case Student
  then show ?thesis by (intro exI [of _ 30]) (simp add: discounts.simps)
next
  case Reciprocal
  then show ?thesis by (intro exI [of _ 75]) (simp add: discounts.simps)
next
  case WinterOnly
  then show ?thesis by (intro exI [of _ 35]) (simp add: discounts.simps)
qed

lemma addedItems_catalog: "c \<in> set (addedItems cs) \<Longrightarrow> \<exists>t. c = items t"
  by (induction cs rule: addedItems.induct) auto

lemma sum_exact:
  assumes "\<forall>c \<in> set xs. \<exists>k. 0 \<le> k \<and> f c = rat_of_int k"
    and "0 \<le> j" and "rat_of_int j + sum_list (map f xs) \<le> 2 ^ 53"
  shows "foldl (\<lambda>p c. jsAdd (Some (f c)) p) (Some (of_int j)) xs =
    Some (of_int j + sum_list (map f xs))"
  using assms
proof (induction xs arbitrary: j)
  case Nil
  show ?case by simp
next
  case (Cons c xs)
  from Cons.prems(1) obtain k where k: "0 \<le> k" "f c = rat_of_int k" by auto
  have rest: "0 \<le> sum_list (map f xs)"
  proof (rule sum_list_nonneg)
    fix x assume "x \<in> set (map f xs)"
    then obtain d where "d \<in> set xs" "x = f d" by auto
    with Cons.prems(1) show "0 \<le> x" by auto
  qed
  have "rat_of_int (k + j) \<le> 2 ^ 53"
    using Cons.prems(3) rest k by simp
  then have "k + j \<le> 2 ^ 53"
    by (metis of_int_le_iff of_int_numeral of_int_power)
  with k Cons.prems(2) have "\<bar>k + j\<bar> \<le> 2 ^ 53" by simp
  then have step: "jsAdd (Some (f c)) (Some (of_int j)) = Some (of_int (k + j))"
    using toDouble_int [of "k + j"] by (simp add: k)
  have ih: "foldl (\<lambda>p c. jsAdd (Some (f c)) p) (Some (of_int (k + j))) xs =
      Some (of_int (k + j) + sum_list (map f xs))"
    using Cons.prems k by (intro Cons.IH) (simp_all add: add.assoc)
  have "foldl (\<lambda>p c. jsAdd (Some (f c)) p) (Some (of_int j)) (c # xs) =
      foldl (\<lambda>p c. jsAdd (Some (f c)) p) (jsAdd (Some (f c)) (Some (of_int j))) xs"
    by (simp only: foldl_Cons)
  also have "\<dots> = Some (of_int (k + j) + sum_list (map f xs))"
    by (simp only: step ih)
  also have "\<dots> = Some (of_int j + sum_list (map f (c # xs)))"
    by (simp add: k)
  finally show ?case .
qed

lemma difference_exact:
  assumes "\<forall>d \<in> set ds. \<exists>k. 0 \<le> k \<and> g d = rat_of_int k"
    and "\<bar>j\<bar> \<le> 2 ^ 53" and "\<bar>rat_of_int j - sum_list (map g ds)\<bar> \<le> 2 ^ 53"
  shows "foldl (\<lambda>t d. jsSub t (Some (g d))) (Some (of_int j)) ds =
    Some (of_int j - sum_list (map g ds))"
  using assms
proof (induction ds arbitrary: j)
  case Nil
  show ?case by simp
next
  case (Cons d ds)
  from Cons.prems(1) obtain k where k: "0 \<le> k" "g d = rat_of_int k" by auto
  have rest: "0 \<le> sum_list (map g ds)"
  proof (rule sum_list_nonneg)
    fix x assume "x \<in> set (map g ds)"
    then obtain d' where "d' \<in> set ds" "x = g d'" by auto
    with Cons.prems(1) show "0 \<le> x" by auto
  qed
  have lo: "- (2 ^ 53) \<le> rat_of_int (j - k)"
    using Cons.prems(3) rest k by simp
  then have "- (2 ^ 53) \<le> j - k"
    by (metis of_int_le_iff of_int_numeral of_int_power of_int_minus)
  moreover have "j - k \<le> 2 ^ 53"
    using Cons.prems(2) k by simp
  ultimately have b: "\<bar>j - k\<bar> \<le> 2 ^ 53" by simp
  then have step: "jsSub (Some (of_int j)) (Some (g d)) = Some (of_int (j - k))"
    using toDouble_int [of "j - k"] by (simp add: k)
  have ih: "foldl (\<lambda>t d. jsSub t (Some (g d))) (Some (of_int (j - k))) ds =
      Some (of_int (j - k) - sum_list (map g ds))"
    using Cons.prems k b by (intro Cons.IH) (simp_all add: algebra_simps)
  have "foldl (\<lambda>t d. jsSub t (Some (g d))) (Some (of_int j)) (d # ds) =
      foldl (\<lambda>t d. jsSub t (Some (g d))) (jsSub (Some (of_int j)) (Some (g d))) ds"
    by (simp only: foldl_Cons)
  also have "\<dots> = Some (of_int (j - k) - sum_list (map g ds))"
    by (simp only: step ih)
  also have "\<dots> = Some (of_int j - sum_list (map g (d # ds)))"
    by (simp add: k)
  finally show ?case .
qed

lemma sum_list_int:
  assumes "\<forall>c \<in> set xs. \<exists>k. 0 \<le> k \<and> f c = rat_of_int k"
  shows "\<exists>s. 0 \<le> s \<and> sum_list (map f xs) = rat_of_int s"
  using assms
proof (induction xs)
  case Nil
  show ?case by (intro exI [of _ 0]) simp
next
  case (Cons c xs)
  then obtain s where s: "0 \<le> s" "sum_list (map f xs) = rat_of_int s" by auto
  from Cons.prems obtain k where k: "0 \<le> k" "f c = rat_of_int k" by auto
  show ?case
    using s k by (intro exI [of _ "k + s"]) simp
qed

lemma sum_list_mset_cong: "mset xs = mset ys \<Longrightarrow> sum_list (map f xs) = sum_list (map f ys)"
  for f :: "'a \<Rightarrow> rat"
  by (metis mset_map sum_mset_sum_list)

lemma getTotal_build_exact:
  assumes "sum_list (map cost (addedItems cs)) \<le> 2 ^ 53"
    and "sum_list (map discountAmount
          (filter (\<lambda>d. discountStrategy d = Absolute) (addedDiscounts cs))) \<le> 2 ^ 53"
  shows "getTotal (build cs) =
     foldl (\<lambda>t d. jsMul t (jsSub (Some 1) (jsDiv (discountAmount d) 100)))
       (Some (sum_list (map cost (addedItems cs))
          - sum_list (map discountAmount
              (filter (\<lambda>d. discountStrategy d = Absolute) (addedDiscounts cs)))))
       (filter (\<lambda>d. discountStrategy d = Percentage) (addedDiscounts cs))"
proof -
  let ?A = "filter (\<lambda>d. discountStrategy d = Absolute) (addedDiscounts cs)"
  have items: "\<forall>c \<in> set (addedItems cs). \<exists>k. 0 \<le> k \<and> cost c = rat_of_int k"
    using addedItems_catalog cost_items_int by blast
  have amounts: "\<forall>d \<in> set ?A. \<exists>k. 0 \<le> k \<and> discountAmount d = rat_of_int k"
    using addedDiscounts_catalog amount_discounts_int by fastforce
  from sum_list_int [OF items] obtain s
    where s: "0 \<le> s" "sum_list (map cost (addedItems cs)) = rat_of_int s" by blast
  from sum_list_int [OF amounts] obtain a
    where a: "0 \<le> a" "sum_list (map discountAmount ?A) = rat_of_int a" by blast
  have s53: "s \<le> 2 ^ 53"
    using assms(1) unfolding s(2) by (metis of_int_le_iff of_int_numeral of_int_power)
  have a53: "a \<le> 2 ^ 53"
    using assms(2) unfolding a(2) by (metis of_int_le_iff of_int_numeral of_int_power)
  have "foldl (\<lambda>p c. jsAdd (Some (cost c)) p) (Some (of_int 0)) (addedItems cs) =
      Some (of_int 0 + sum_list (map cost (addedItems cs)))"
    using items assms(1) by (intro sum_exact) simp_all
  then have sum: "foldl (\<lambda>p c. jsAdd (Some (cost c)) p) (Some 0) (addedItems cs) =
      Some (rat_of_int s)"
    by (simp add: s(2))
  have "\<bar>s - a\<bar> \<le> 2 ^ 53"
    using s a s53 a53 by linarith
  then have "\<bar>rat_of_int (s - a)\<bar> \<le> rat_of_int (2 ^ 53)"
    by (simp only: of_int_abs [symmetric] of_int_le_iff)
  then have bound: "\<bar>rat_of_int s - sum_list (map discountAmount ?A)\<bar> \<le> 2 ^ 53"
    by (simp add: a(2))
  have diff: "foldl (\<lambda>t d. jsSub t (Some (discountAmount d))) (Some (rat_of_int s)) ?A =
      Some (rat_of_int s - sum_list (map discountAmount ?A))"
    using amounts s s53 bound by (intro difference_exact) simp_all
  show ?thesis
    unfolding getTotal_build sum diff s(2) ..
qed

section \<open>Properties of the cart\<close>

text \<open>
  C6.  After any sequence of calls of \<open>addItem\<close> and \<open>addDiscount\<close>, the discounts of
  the cart are the absolute ones among the discounts added, in the order in which they
  were added, followed by the percentage ones, in the order in which they were added: every
  absolute discount is before every percentage discount and the sort is stable.  Sorting
  that sequence again gives the same sequence, as does sorting any sorted sequence.
\<close>

theorem discounts_sorted_stable:
  "getDiscounts (build cs) =
     filter (\<lambda>d. discountStrategy d = Absolute) (addedDiscounts cs) @
     filter (\<lambda>d. discountStrategy d = Percentage) (addedDiscounts cs)
   \<and> sortDiscounts (getDiscounts (build cs)) = getDiscounts (build cs)
   \<and> sortDiscounts (sortDiscounts ds) = sortDiscounts ds"
  by (simp add: getDiscounts_def cartDiscounts_build sortDiscounts_partition)

text \<open>
  C3 (as amended).  For a cart built by any sequence of calls, \<open>getTotal\<close> is the sum of
  the costs of the items, from which the amount of every absolute discount is subtracted,
  and which is then multiplied by \<open>1 - amount / 100\<close> for every percentage discount, in
  the order in which those were added; every operation gives the nearest double.  While
  the sum of the costs and the sum of the absolute amounts are at most \<open>2 ^ 53\<close>, the sum
  and the subtractions are exact: the total is those multiplications applied to the sum of
  the costs minus the sum of the absolute amounts, and a second sequence of calls that
  adds the same items and the same absolute discounts in any order, and the same
  percentage discounts in the same order, interleaved in any way, has the same total.
\<close>

theorem total_formula:
  "getTotal (build cs) =
     foldl (\<lambda>t d. jsMul t (jsSub (Some 1) (jsDiv (discountAmount d) 100)))
       (foldl (\<lambda>t d. jsSub t (Some (discountAmount d)))
          (foldl (\<lambda>p c. jsAdd (Some (cost c)) p) (Some 0) (addedItems cs))
          (filter (\<lambda>d. discountStrategy d = Absolute) (addedDiscounts cs)))
       (filter (\<lambda>d. discountStrategy d = Percentage) (addedDiscounts cs))
   \<and> (sum_list (map cost (addedItems cs)) \<le> 2 ^ 53
      \<and> sum_list (map discountAmount
            (filter (\<lambda>d. discountStrategy d = Absolute) (addedDiscounts cs))) \<le> 2 ^ 53
      \<longrightarrow>
        getTotal (build cs) =
          foldl (\<lambda>t d. jsMul t (jsSub (Some 1) (jsDiv (discountAmount d) 100)))
            (Some (sum_list (map cost (addedItems cs))
               - sum_list (map discountAmount
                   (filter (\<lambda>d. discountStrategy d = Absolute) (addedDiscounts cs)))))
            (filter (\<lambda>d. discountStrategy d = Percentage) (addedDiscounts cs))
        \<and> (\<forall>cs'. mset (addedItems cs') = mset (addedItems cs)
              \<and> mset (filter (\<lambda>d. discountStrategy d = Absolute) (addedDiscounts cs')) =
                  mset (filter (\<lambda>d. discountStrategy d = Absolute) (addedDiscounts cs))
              \<and> filter (\<lambda>d. discountStrategy d = Percentage) (addedDiscounts cs') =
                  filter (\<lambda>d. discountStrategy d = Percentage) (addedDiscounts cs)
            \<longrightarrow> getTotal (build cs') = getTotal (build cs)))"
proof (intro conjI impI allI)
  show "getTotal (build cs) =
     foldl (\<lambda>t d. jsMul t (jsSub (Some 1) (jsDiv (discountAmount d) 100)))
       (foldl (\<lambda>t d. jsSub t (Some (discountAmount d)))
          (foldl (\<lambda>p c. jsAdd (Some (cost c)) p) (Some 0) (addedItems cs))
          (filter (\<lambda>d. discountStrategy d = Absolute) (addedDiscounts cs)))
       (filter (\<lambda>d. discountStrategy d = Percentage) (addedDiscounts cs))"
    by (rule getTotal_build)
next
  assume "sum_list (map cost (addedItems cs)) \<le> 2 ^ 53
      \<and> sum_list (map discountAmount
            (filter (\<lambda>d. discountStrategy d = Absolute) (addedDiscounts cs))) \<le> 2 ^ 53"
  then show "getTotal (build cs) =
          foldl (\<lambda>t d. jsMul t (jsSub (Some 1) (jsDiv (discountAmount d) 100)))
            (Some (sum_list (map cost (addedItems cs))
               - sum_list (map discountAmount
                   (filter (\<lambda>d. discountStrategy d = Absolute) (addedDiscounts cs)))))
            (filter (\<lambda>d. discountStrategy d = Percentage) (addedDiscounts cs))"
    by (intro getTotal_build_exact) simp_all
next
  fix cs'
  assume b: "sum_list (map cost (addedItems cs)) \<le> 2 ^ 53
      \<and> sum_list (map discountAmount
            (filter (\<lambda>d. discountStrategy d = Absolute) (addedDiscounts cs))) \<le> 2 ^ 53"
    and h: "mset (addedItems cs') = mset (addedItems cs)
              \<and> mset (filter (\<lambda>d. discountStrategy d = Absolute) (addedDiscounts cs')) =
                  mset (filter (\<lambda>d. discountStrategy d = Absolute) (addedDiscounts cs))
              \<and> filter (\<lambda>d. discountStrategy d = Percentage) (addedDiscounts cs') =
                  filter (\<lambda>d. discountStrategy d = Percentage) (addedDiscounts cs)"
  from h have i: "sum_list (map cost (addedItems cs')) = sum_list (map cost (addedItems cs))"
    by (intro sum_list_mset_cong) simp
  from h have a: "sum_list (map discountAmount
        (filter (\<lambda>d. discountStrategy d = Absolute) (addedDiscounts cs'))) =
      sum_list (map discountAmount
        (filter (\<lambda>d. discountStrategy d = Absolute) (addedDiscounts cs)))"
    by (intro sum_list_mset_cong) simp
  from h have p: "filter (\<lambda>d. discountStrategy d = Percentage) (addedDiscounts cs') =
      filter (\<lambda>d. discountStrategy d = Percentage) (addedDiscounts cs)"
    by simp
  have "getTotal (build cs') =
          foldl (\<lambda>t d. jsMul t (jsSub (Some 1) (jsDiv (discountAmount d) 100)))
            (Some (sum_list (map cost (addedItems cs'))
               - sum_list (map discountAmount
                   (filter (\<lambda>d. discountStrategy d = Absolute) (addedDiscounts cs')))))
            (filter (\<lambda>d. discountStrategy d = Percentage) (addedDiscounts cs'))"
    using b by (intro getTotal_build_exact) (simp_all only: i a)
  also have "\<dots> = getTotal (build cs)"
    using b unfolding i a p by (intro getTotal_build_exact [symmetric]) simp_all
  finally show "getTotal (build cs') = getTotal (build cs)" .
qed

text \<open>Membership and a first league with the family, winter-only and reciprocal discounts,
  added in two orders: 290 less 110 is 180, and \<open>180 * (1 - 5 / 100)\<close> is 171 in doubles.\<close>

theorem total_formula_witness:
  "sum_list (map cost (addedItems
       [AddItem Membership, AddItem FirstLeague, AddDiscount Family, AddDiscount WinterOnly,
        AddDiscount Reciprocal])) \<le> 2 ^ 53
   \<and> sum_list (map discountAmount (filter (\<lambda>d. discountStrategy d = Absolute) (addedDiscounts
       [AddItem Membership, AddItem FirstLeague, AddDiscount Family, AddDiscount WinterOnly,
        AddDiscount Reciprocal]))) \<le> 2 ^ 53
   \<and> mset (addedItems
       [AddDiscount Reciprocal, AddItem FirstLeague, AddDiscount WinterOnly, AddItem Membership,
        AddDiscount Family]) =
     mset (addedItems
       [AddItem Membership, AddItem FirstLeague, AddDiscount Family, AddDiscount WinterOnly,
        AddDiscount Reciprocal])
   \<and> mset (filter (\<lambda>d. discountStrategy d = Absolute) (addedDiscounts
       [AddDiscount Reciprocal, AddItem FirstLeague, AddDiscount WinterOnly, AddItem Membership,
        AddDiscount Family])) =
     mset (filter (\<lambda>d. discountStrategy d = Absolute) (addedDiscounts
       [AddItem Membership, AddItem FirstLeague, AddDiscount Family, AddDiscount WinterOnly,
        AddDiscount Reciprocal]))
   \<and> filter (\<lambda>d. discountStrategy d = Percentage) (addedDiscounts
       [AddDiscount Reciprocal, AddItem FirstLeague, AddDiscount WinterOnly, AddItem Membership,
        AddDiscount Family]) =
     filter (\<lambda>d. discountStrategy d = Percentage) (addedDiscounts
       [AddItem Membership, AddItem FirstLeague, AddDiscount Family, AddDiscount WinterOnly,
        AddDiscount Reciprocal])
   \<and> getTotal (build
       [AddItem Membership, AddItem FirstLeague, AddDiscount Family, AddDiscount WinterOnly,
        AddDiscount Reciprocal]) = Some 171
   \<and> getTotal (build
       [AddDiscount Reciprocal, AddItem FirstLeague, AddDiscount WinterOnly, AddItem Membership,
        AddDiscount Family]) = Some 171"
proof -
  let ?cs = "[AddItem Membership, AddItem FirstLeague, AddDiscount Family, AddDiscount WinterOnly,
        AddDiscount Reciprocal]"
  let ?cs' = "[AddDiscount Reciprocal, AddItem FirstLeague, AddDiscount WinterOnly,
        AddItem Membership, AddDiscount Family]"
  have b: "sum_list (map cost (addedItems ?cs)) \<le> 2 ^ 53
      \<and> sum_list (map discountAmount
            (filter (\<lambda>d. discountStrategy d = Absolute) (addedDiscounts ?cs))) \<le> 2 ^ 53"
    by (simp add: discountStrategy_discounts) (simp add: items.simps discounts.simps)
  have h: "mset (addedItems ?cs') = mset (addedItems ?cs)
      \<and> mset (filter (\<lambda>d. discountStrategy d = Absolute) (addedDiscounts ?cs')) =
          mset (filter (\<lambda>d. discountStrategy d = Absolute) (addedDiscounts ?cs))
      \<and> filter (\<lambda>d. discountStrategy d = Percentage) (addedDiscounts ?cs') =
          filter (\<lambda>d. discountStrategy d = Percentage) (addedDiscounts ?cs)"
    by (simp add: discountStrategy_discounts)
  have v: "jsMul (Some (135 + 155 - (35 + 75))) (jsSub (Some 1) (jsDiv 5 100)) = Some 171"
    by code_simp
  from total_formula [of ?cs] b
  have "getTotal (build ?cs) =
      foldl (\<lambda>t d. jsMul t (jsSub (Some 1) (jsDiv (discountAmount d) 100)))
        (Some (sum_list (map cost (addedItems ?cs))
           - sum_list (map discountAmount
               (filter (\<lambda>d. discountStrategy d = Absolute) (addedDiscounts ?cs)))))
        (filter (\<lambda>d. discountStrategy d = Percentage) (addedDiscounts ?cs))"
    by blast
  then have t: "getTotal (build ?cs) = Some 171"
    using v by (simp add: discountStrategy_discounts) (simp add: items.simps discounts.simps)
  from total_formula [of ?cs] b h have "getTotal (build ?cs') = getTotal (build ?cs)"
    by blast
  with b h t show ?thesis by simp
qed

text \<open>
  C3, as stated.  Three items that cost 325 together, with the family and the student
  discount: added in the one order the total is 216.125, in the other it is the double
  just below, \<open>216.125 - 2 ^ (- 45)\<close>, so the order of the percentage discounts shows in the
  total.  And the fall cart of four regular leagues with the student discount costs 655
  before the discount and \<open>458.5 - 2 ^ (- 44)\<close> after it, not \<open>655 * (1 - 30 / 100)\<close>.
\<close>

theorem total_order_dependent:
  "getTotal (build [AddItem FirstLeague, AddItem BasicIce, AddItem AdditionalLeague,
       AddDiscount Family, AddDiscount Student]) = Some (1729 / 8)
   \<and> getTotal (build [AddItem FirstLeague, AddItem BasicIce, AddItem AdditionalLeague,
       AddDiscount Student, AddDiscount Family]) = Some (1729 / 8 - 1 / 2 ^ 45)
   \<and> getTotal (build [AddItem FirstLeague, AddItem BasicIce, AddItem AdditionalLeague,
       AddDiscount Family, AddDiscount Student]) \<noteq>
     getTotal (build [AddItem FirstLeague, AddItem BasicIce, AddItem AdditionalLeague,
       AddDiscount Student, AddDiscount Family])
   \<and> getTotal (build [AddItem Membership, AddItem FirstLeague, AddItem SecondLeague,
       AddItem ThirdLeague, AddItem AdditionalLeague, AddDiscount Student])
     = Some (917 / 2 - 1 / 2 ^ 44)
   \<and> getTotal (build [AddItem Membership, AddItem FirstLeague, AddItem SecondLeague,
       AddItem ThirdLeague, AddItem AdditionalLeague, AddDiscount Student])
     \<noteq> Some ((135 + 155 + 155 + 155 + 55 - 0) * (1 - 30 / 100))"
proof -
  have a: "getTotal (build [AddItem FirstLeague, AddItem BasicIce, AddItem AdditionalLeague,
       AddDiscount Family, AddDiscount Student]) = Some (1729 / 8)"
    by code_simp
  have b: "getTotal (build [AddItem FirstLeague, AddItem BasicIce, AddItem AdditionalLeague,
       AddDiscount Student, AddDiscount Family]) = Some (1729 / 8 - 1 / 2 ^ 45)"
    by code_simp
  have c: "getTotal (build [AddItem Membership, AddItem FirstLeague, AddItem SecondLeague,
       AddItem ThirdLeague, AddItem AdditionalLeague, AddDiscount Student])
     = Some (917 / 2 - 1 / 2 ^ 44)"
    by code_simp
  show ?thesis
    unfolding a b c by simp
qed

section \<open>Properties of getBenefits\<close>

lemma hasItem_iff: "hasItem n c = (\<exists>i \<in> set (cartItems c). name i = name (items n))"
  by (auto simp add: hasItem_def find_None_iff)

lemma name_basicIceReduced: "name (items BasicIceReduced) = name (items BasicIce)"
  by (simp add: items.simps)

lemma set_cartDiscounts_build: "set (cartDiscounts (build cs)) = set (addedDiscounts cs)"
proof -
  have "d \<in> set (cartDiscounts (build cs)) \<longleftrightarrow> d \<in> set (addedDiscounts cs)" for d
    by (cases "discountStrategy d") (simp_all add: cartDiscounts_build sortDiscounts_partition)
  then show ?thesis by blast
qed

lemma reciprocal_by_name:
  "list_ex (\<lambda>d. discountName d = ''Reciprocal member discount'') (getDiscounts (build cs)) =
     (discounts Reciprocal \<in> set (getDiscounts (build cs)))"
proof -
  have "(\<exists>d \<in> set (addedDiscounts cs). discountName d = ''Reciprocal member discount'') =
      (discounts Reciprocal \<in> set (addedDiscounts cs))"
    using addedDiscounts_catalog [of _ cs] discountName_discounts by metis
  then show ?thesis
    by (simp add: list_ex_iff getDiscounts_def set_cartDiscounts_build)
qed

lemma annual_dues:
  "(B_dues \<in> set (annualList (getBenefits f w))) =
     ((hasItem Membership f \<or> hasItem Membership w)
      \<and> \<not> list_ex (\<lambda>d. discountName d = ''Reciprocal member discount'') (getDiscounts f)
      \<and> \<not> list_ex (\<lambda>d. discountName d = ''Reciprocal member discount'') (getDiscounts w))"
  by (simp add: getBenefits_def Let_def)

text \<open>
  C8.  For two carts reached by calls of \<open>addItem\<close> and \<open>addDiscount\<close>, \<open>getBenefits\<close>
  puts \<open>dues\<close> in the annual list if and only if one of the carts has the membership item
  and neither cart holds the reciprocal discount.
\<close>

theorem dues_iff:
  "(B_dues \<in> set (annualList (getBenefits (build cs) (build cs')))) =
     ((hasItem Membership (build cs) \<or> hasItem Membership (build cs'))
      \<and> discounts Reciprocal \<notin> set (getDiscounts (build cs))
      \<and> discounts Reciprocal \<notin> set (getDiscounts (build cs')))"
  by (simp only: annual_dues reciprocal_by_name)

theorem dues_iff_witness:
  "hasItem Membership (build [AddItem Membership, AddDiscount Family])
   \<and> discounts Reciprocal \<notin> set (getDiscounts (build [AddItem Membership, AddDiscount Family]))
   \<and> discounts Reciprocal \<notin> set (getDiscounts (build []))
   \<and> B_dues \<in> set (annualList (getBenefits (build [AddItem Membership, AddDiscount Family])
         (build [])))"
proof -
  have m: "hasItem Membership (build [AddItem Membership, AddDiscount Family])"
    by (simp add: hasItem_iff cartItems_build)
  have f: "discounts Reciprocal \<notin> set (getDiscounts (build [AddItem Membership, AddDiscount Family]))"
    by (simp add: getDiscounts_def set_cartDiscounts_build discounts_inj)
  have w: "discounts Reciprocal \<notin> set (getDiscounts (build []))"
    by (simp add: getDiscounts_def set_cartDiscounts_build)
  from dues_iff [of "[AddItem Membership, AddDiscount Family]" "[]"] m f w
  show ?thesis by simp
qed

text \<open>
  C10.  \<open>hasItem\<close> compares names, and \<open>basicIce\<close> and \<open>basicIceReduced\<close> have the same
  name: a cart has the one if and only if it has the other.  So a winter cart whose only
  item is \<open>basicIceReduced\<close> gets the six seasonal benefits, whatever the fall cart is.
\<close>

theorem basicIce_same_name:
  "hasItem BasicIce c = hasItem BasicIceReduced c
   \<and> (cartItems w = [items BasicIceReduced] \<longrightarrow>
        winterList (getBenefits f w) =
          [B_buildingAccess, B_ice, B_daytime, B_sparing, B_rentals, B_training])"
  by (auto simp add: hasItem_iff name_basicIceReduced getBenefits_def Let_def getLeagueCount_def
      isLeague_items)

theorem basicIce_same_name_witness:
  "cartItems (build [AddItem BasicIceReduced]) = [items BasicIceReduced]
   \<and> hasItem BasicIce (build [AddItem BasicIceReduced])
   \<and> hasItem BasicIceReduced (build [AddItem BasicIceReduced])
   \<and> winterList (getBenefits newCart (build [AddItem BasicIceReduced])) =
        [B_buildingAccess, B_ice, B_daytime, B_sparing, B_rentals, B_training]"
proof -
  have h: "cartItems (build [AddItem BasicIceReduced]) = [items BasicIceReduced]"
    by (simp add: build_def newCart_def addItem_def)
  have r: "hasItem BasicIceReduced (build [AddItem BasicIceReduced])"
    by (simp add: hasItem_def h)
  from basicIce_same_name [of "build [AddItem BasicIceReduced]" "build [AddItem BasicIceReduced]" newCart]
    h r show ?thesis by simp
qed

section \<open>The two carts of getCarts\<close>

text \<open>Both carts hold catalog entries only; the lists of their keys are computed here
  once, stage by stage, along the statements of \<open>getCarts\<close>.\<close>

lemma addDiscount_record:
  "addDiscount n \<lparr>cartItems = is, cartDiscounts = ds\<rparr> =
     \<lparr>cartItems = is, cartDiscounts = sortDiscounts (ds @ [discounts n])\<rparr>"
  by (simp add: addDiscount_def)

lemma getItems_record: "getItems \<lparr>cartItems = is, cartDiscounts = ds\<rparr> = is"
  by (simp add: getItems_def)

lemma slots_cases:
  "t \<in> set (take n (drop j [FirstLeague, SecondLeague, ThirdLeague])) \<Longrightarrow>
     t = FirstLeague \<or> t = SecondLeague \<or> t = ThirdLeague"
  by (auto dest!: in_set_takeD in_set_dropD)

lemma slots_cases0:
  "t \<in> set (take n [FirstLeague, SecondLeague, ThirdLeague]) \<Longrightarrow>
     t = FirstLeague \<or> t = SecondLeague \<or> t = ThirdLeague"
  by (auto dest!: in_set_takeD)

lemma league_filter_slots:
  "filter (\<lambda>t. t = FirstLeague \<or> t = SecondLeague \<or> t = ThirdLeague \<or> t = AdditionalLeague)
     (take n (drop j [FirstLeague, SecondLeague, ThirdLeague])) =
   take n (drop j [FirstLeague, SecondLeague, ThirdLeague])"
  by (rule filter_True) (auto dest!: slots_cases)

lemma league_filter_slots0:
  "filter (\<lambda>t. t = FirstLeague \<or> t = SecondLeague \<or> t = ThirdLeague \<or> t = AdditionalLeague)
     (take n [FirstLeague, SecondLeague, ThirdLeague]) =
   take n [FirstLeague, SecondLeague, ThirdLeague]"
  using league_filter_slots [of n 0] by simp

lemma hasItem_types:
  "hasItem n \<lparr>cartItems = map items ts, cartDiscounts = ds\<rparr> =
     (\<exists>t \<in> set ts. name (items t) = name (items n))"
  by (simp add: hasItem_map list_ex_iff)


lemma fall_cart:
  fixes p :: GetCostParams
  shows "fall (getCarts p) =
     \<lparr>cartItems = map items
        ((if fallDayLeagues p \<or> fallSpareOnly p \<or> 0 < fallRegularLeagues p
              \<or> fallSocial p = Some Dues then [Membership] else []) @
         take (nat (fallRegularLeagues p)) [FirstLeague, SecondLeague, ThirdLeague] @
         replicate (nat (fallRegularLeagues p) - 3) AdditionalLeague @
         (if fallRegularLeagues p = 0
          then (if fallDayLeagues p \<or> fallSpareOnly p then [BasicIce]
                else if fallSocial p = Some NoDues then [Social] else [])
          else [])),
      cartDiscounts = map discounts
        (if fallDayLeagues p \<or> fallSpareOnly p \<or> 0 < fallRegularLeagues p
              \<or> fallSocial p = Some Dues
         then (if discount p = Some Reciprocal \<and> 0 < fallRegularLeagues p
               then [Reciprocal] else []) @
              (if discount p = Some Family then [Family]
               else if discount p = Some Student then [Student] else [])
         else [])\<rparr>"
    (is "fall (getCarts p) = ?F")
proof -
  define k where "k = fallRegularLeagues p"
  define gF where "gF \<longleftrightarrow> fallDayLeagues p \<or> fallSpareOnly p \<or> 0 < k \<or> fallSocial p = Some Dues"
  define c1 where "c1 = (if gF then addItem Membership newCart else newCart)"
  define r2 where "r2 = addRegularLeagues 0 k [FirstLeague, SecondLeague, ThirdLeague] c1"
  define c3 where "c3 = (if k = 0
           then (if fallDayLeagues p \<or> fallSpareOnly p then addItem BasicIce (snd r2)
                 else if fallSocial p = Some NoDues then addItem Social (snd r2) else snd r2)
           else snd r2)"
  define c4 where "c4 = (if length (getItems c3) > 0 \<and> hasItem Membership c3
            then (let fallCart =
                        (if discount p = Some Reciprocal \<and> getLeagueCount c3 > 0
                         then addDiscount Reciprocal c3 else c3)
                  in if discount p = Some Family then addDiscount Family fallCart
                     else if discount p = Some Student then addDiscount Student fallCart
                     else fallCart)
            else c3)"
  have stage: "fall (getCarts p) = c4"
    unfolding getCarts_def Let_def split_def c4_def c3_def r2_def c1_def gF_def k_def
    by (simp only: Carts.select_convs)
  define Fl where "Fl = (if gF then [Membership] else []) @
         take (nat k) [FirstLeague, SecondLeague, ThirdLeague] @
         replicate (nat k - 3) AdditionalLeague @
         (if k = 0
          then (if fallDayLeagues p \<or> fallSpareOnly p then [BasicIce]
                else if fallSocial p = Some NoDues then [Social] else [])
          else [])"
  have n1: "c1 = \<lparr>cartItems = map items (if gF then [Membership] else []), cartDiscounts = []\<rparr>"
    by (simp add: c1_def newCart_def addItem_def)
  have n2: "snd r2 = \<lparr>cartItems = map items ((if gF then [Membership] else []) @
         take (nat k) [FirstLeague, SecondLeague, ThirdLeague] @
         replicate (nat k - 3) AdditionalLeague), cartDiscounts = []\<rparr>"
    unfolding r2_def n1 addRegularLeagues_map by simp
  have n3: "c3 = \<lparr>cartItems = map items Fl, cartDiscounts = []\<rparr>"
    unfolding c3_def n2 addItem_map Fl_def by simp
  have mem: "hasItem Membership c3 = gF"
    unfolding n3 hasItem_types name_items_eq Fl_def
    by (auto dest: slots_cases0 simp add: gF_def)
  have nonempty: "gF \<Longrightarrow> 0 < length (getItems c3)"
    unfolding n3 getItems_record Fl_def by simp
  have lc: "getLeagueCount c3 = nat k"
    unfolding n3 getLeagueCount_map Fl_def
    by (simp add: league_filter_slots0)
  have n4: "c4 = \<lparr>cartItems = map items Fl, cartDiscounts = map discounts
        (if gF
         then (if discount p = Some Reciprocal \<and> 0 < k then [Reciprocal] else []) @
              (if discount p = Some Family then [Family]
               else if discount p = Some Student then [Student] else [])
         else [])\<rparr>"
  proof -
    have gate: "(length (getItems c3) > 0 \<and> hasItem Membership c3) = gF"
      using mem nonempty by auto
    have pos: "(0 < nat k) = (0 < k)"
      by simp
    show ?thesis
      unfolding c4_def gate lc pos
      by (simp add: Let_def n3 addDiscount_record sortDiscounts_partition
          discountStrategy_discounts)
  qed
  show ?thesis
    unfolding stage n4 Fl_def gF_def k_def by simp
qed


lemma winter_cart:
  fixes p :: GetCostParams
  shows "winter (getCarts p) =
     \<lparr>cartItems = map items
        ((if \<not> (fallDayLeagues p \<or> fallSpareOnly p \<or> 0 < fallRegularLeagues p
                 \<or> fallSocial p = Some Dues)
             \<and> (winterDayLeagues p \<or> winterSpareOnly p \<or> 0 < winterRegularLeagues p
                 \<or> winterSocial p = Some Dues) then [Membership] else []) @
         take (nat (winterRegularLeagues p))
           (drop (nat (fallRegularLeagues p)) [FirstLeague, SecondLeague, ThirdLeague]) @
         replicate (nat (winterRegularLeagues p) - (3 - nat (fallRegularLeagues p)))
           AdditionalLeague @
         (if winterRegularLeagues p = 0
          then (if winterDayLeagues p \<or> winterSpareOnly p
                then (if 3 \<le> fallRegularLeagues p then [BasicIceReduced] else [BasicIce])
                else if winterSocial p = Some NoDues
                        \<and> \<not> (fallRegularLeagues p = 0 \<and> fallSocial p = Some NoDues)
                        \<and> \<not> (fallDayLeagues p \<or> fallSpareOnly p \<or> 0 < fallRegularLeagues p
                               \<or> fallSocial p = Some Dues)
                then [Social] else [])
          else [])),
      cartDiscounts = map discounts
        ((if \<not> (fallDayLeagues p \<or> fallSpareOnly p \<or> 0 < fallRegularLeagues p
                 \<or> fallSocial p = Some Dues)
             \<and> (winterDayLeagues p \<or> winterSpareOnly p \<or> 0 < winterRegularLeagues p
                 \<or> winterSocial p = Some Dues) then [WinterOnly] else []) @
         (if getItems (winter (getCarts p)) \<noteq> []
          then (if discount p = Some Reciprocal
                   \<and> \<not> (fallDayLeagues p \<or> fallSpareOnly p \<or> 0 < fallRegularLeagues p
                          \<or> fallSocial p = Some Dues)
                   \<and> 0 < winterRegularLeagues p
                then [Reciprocal] else []) @
               (if discount p = Some Family then [Family]
                else if discount p = Some Student then [Student] else [])
          else []))\<rparr>"
proof -
  define k where "k = fallRegularLeagues p"
  define m where "m = winterRegularLeagues p"
  define gF where "gF \<longleftrightarrow> fallDayLeagues p \<or> fallSpareOnly p \<or> 0 < k \<or> fallSocial p = Some Dues"
  define gW where
    "gW \<longleftrightarrow> winterDayLeagues p \<or> winterSpareOnly p \<or> 0 < m \<or> winterSocial p = Some Dues"
  define c1 where "c1 = (if gF then addItem Membership newCart else newCart)"
  define r2 where "r2 = addRegularLeagues 0 k [FirstLeague, SecondLeague, ThirdLeague] c1"
  define c3 where "c3 = (if k = 0
           then (if fallDayLeagues p \<or> fallSpareOnly p then addItem BasicIce (snd r2)
                 else if fallSocial p = Some NoDues then addItem Social (snd r2) else snd r2)
           else snd r2)"
  define c4 where "c4 = (if length (getItems c3) > 0 \<and> hasItem Membership c3
            then (let fallCart =
                        (if discount p = Some Reciprocal \<and> getLeagueCount c3 > 0
                         then addDiscount Reciprocal c3 else c3)
                  in if discount p = Some Family then addDiscount Family fallCart
                     else if discount p = Some Student then addDiscount Student fallCart
                     else fallCart)
            else c3)"
  define w1 where "w1 = (if \<not> hasItem Membership c4
            then (if gW then addDiscount WinterOnly (addItem Membership newCart) else newCart)
            else newCart)"
  define r6 where "r6 = addRegularLeagues 0 m (fst r2) w1"
  define w3 where "w3 = (if m = 0
            then (if winterDayLeagues p \<or> winterSpareOnly p
                  then (if getLeagueCount c4 \<ge> 3
                        then addItem BasicIceReduced (snd r6)
                        else addItem BasicIce (snd r6))
                  else if winterSocial p = Some NoDues \<and> \<not> hasItem Social c4
                          \<and> \<not> hasItem Membership c4
                  then addItem Social (snd r6)
                  else snd r6)
            else snd r6)"
  define w4 where "w4 = (if length (getItems w3) > 0
            then (let winterCart =
                        (if discount p = Some Reciprocal \<and> hasItem Membership w3
                            \<and> \<not> hasItem Membership c4 \<and> getLeagueCount w3 > 0
                         then addDiscount Reciprocal w3 else w3)
                  in if discount p = Some Family then addDiscount Family winterCart
                     else if discount p = Some Student then addDiscount Student winterCart
                     else winterCart)
            else w3)"
  have stage: "getCarts p = \<lparr>fall = c4, winter = w4\<rparr>"
    unfolding getCarts_def Let_def split_def w4_def w3_def r6_def w1_def c4_def c3_def r2_def
      c1_def gW_def gF_def k_def m_def
    by (rule refl)
  have c4: "c4 = fall (getCarts p)"
    by (simp only: stage Carts.select_convs)
  have w4: "winter (getCarts p) = w4"
    by (simp only: stage Carts.select_convs)
  have fmem: "hasItem Membership c4 = gF"
    unfolding c4 fall_cart hasItem_types name_items_eq
    by (auto dest: slots_cases0 simp add: gF_def k_def)
  have fsoc: "hasItem Social c4 =
      (k = 0 \<and> \<not> (fallDayLeagues p \<or> fallSpareOnly p) \<and> fallSocial p = Some NoDues)"
    unfolding c4 fall_cart hasItem_types name_items_eq
    by (auto dest: slots_cases0 simp add: k_def)
  have flc: "getLeagueCount c4 = nat k"
    unfolding c4 fall_cart getLeagueCount_map
    by (simp add: league_filter_slots0 k_def)
  have rest: "fst r2 = drop (nat k) [FirstLeague, SecondLeague, ThirdLeague]"
    by (simp add: r2_def addRegularLeagues_closed)
  have n1: "w1 = \<lparr>cartItems = map items (if \<not> gF \<and> gW then [Membership] else []),
      cartDiscounts = map discounts (if \<not> gF \<and> gW then [WinterOnly] else [])\<rparr>"
    unfolding w1_def fmem
    by (simp add: newCart_def addItem_def addDiscount_def sortDiscounts_def)
  have n2: "snd r6 = \<lparr>cartItems = map items ((if \<not> gF \<and> gW then [Membership] else []) @
         take (nat m) (drop (nat k) [FirstLeague, SecondLeague, ThirdLeague]) @
         replicate (nat m - (3 - nat k)) AdditionalLeague),
      cartDiscounts = map discounts (if \<not> gF \<and> gW then [WinterOnly] else [])\<rparr>"
    unfolding r6_def rest n1 addRegularLeagues_map by simp
  define Wl where "Wl = (if \<not> gF \<and> gW then [Membership] else []) @
         take (nat m) (drop (nat k) [FirstLeague, SecondLeague, ThirdLeague]) @
         replicate (nat m - (3 - nat k)) AdditionalLeague @
         (if m = 0
          then (if winterDayLeagues p \<or> winterSpareOnly p
                then (if 3 \<le> k then [BasicIceReduced] else [BasicIce])
                else if winterSocial p = Some NoDues
                        \<and> \<not> (k = 0 \<and> fallSocial p = Some NoDues) \<and> \<not> gF
                then [Social] else [])
          else [])"
  have three: "(3 \<le> nat k) = (3 \<le> k)"
    by arith
  have soc: "(winterSocial p = Some NoDues
        \<and> \<not> (k = 0 \<and> \<not> (fallDayLeagues p \<or> fallSpareOnly p) \<and> fallSocial p = Some NoDues)
        \<and> \<not> gF) =
      (winterSocial p = Some NoDues \<and> \<not> (k = 0 \<and> fallSocial p = Some NoDues) \<and> \<not> gF)"
    by (auto simp add: gF_def)
  have n3: "w3 = \<lparr>cartItems = map items Wl,
      cartDiscounts = map discounts (if \<not> gF \<and> gW then [WinterOnly] else [])\<rparr>"
    unfolding w3_def fmem fsoc flc three soc n2 addItem_map Wl_def by simp
  have wmem: "hasItem Membership w3 = (\<not> gF \<and> gW)"
    unfolding n3 hasItem_types name_items_eq Wl_def
    by (auto dest: slots_cases)
  have wlc: "getLeagueCount w3 = nat m"
    unfolding n3 getLeagueCount_map Wl_def
    by (simp add: league_filter_slots)
  have pos: "(0 < nat m) = (0 < m)"
    by simp
  have len: "(0 < length (getItems w3)) = (Wl \<noteq> [])"
    unfolding n3 getItems_record by simp
  have recip: "(discount p = Some Reciprocal \<and> (\<not> gF \<and> gW) \<and> \<not> gF \<and> 0 < m) =
      (discount p = Some Reciprocal \<and> \<not> gF \<and> 0 < m)"
    by (auto simp add: gW_def)
  have n4: "w4 = \<lparr>cartItems = map items Wl, cartDiscounts = map discounts
        ((if \<not> gF \<and> gW then [WinterOnly] else []) @
         (if Wl \<noteq> []
          then (if discount p = Some Reciprocal \<and> \<not> gF \<and> 0 < m then [Reciprocal] else []) @
               (if discount p = Some Family then [Family]
                else if discount p = Some Student then [Student] else [])
          else []))\<rparr>"
    unfolding w4_def wmem fmem wlc pos len recip
    by (simp add: Let_def n3 addDiscount_record sortDiscounts_partition
        discountStrategy_discounts)
  have items4: "getItems (winter (getCarts p)) = map items Wl"
    unfolding w4 n4 getItems_record ..
  show ?thesis
    unfolding items4 unfolding w4 n4 Wl_def gF_def gW_def k_def m_def by simp
qed

lemma fall_items:
  "cartItems (fall (getCarts p)) = map items
        ((if fallDayLeagues p \<or> fallSpareOnly p \<or> 0 < fallRegularLeagues p
              \<or> fallSocial p = Some Dues then [Membership] else []) @
         take (nat (fallRegularLeagues p)) [FirstLeague, SecondLeague, ThirdLeague] @
         replicate (nat (fallRegularLeagues p) - 3) AdditionalLeague @
         (if fallRegularLeagues p = 0
          then (if fallDayLeagues p \<or> fallSpareOnly p then [BasicIce]
                else if fallSocial p = Some NoDues then [Social] else [])
          else []))"
  by (simp only: fall_cart Cart.select_convs)

lemma fall_discounts:
  "cartDiscounts (fall (getCarts p)) = map discounts
        (if fallDayLeagues p \<or> fallSpareOnly p \<or> 0 < fallRegularLeagues p
              \<or> fallSocial p = Some Dues
         then (if discount p = Some Reciprocal \<and> 0 < fallRegularLeagues p
               then [Reciprocal] else []) @
              (if discount p = Some Family then [Family]
               else if discount p = Some Student then [Student] else [])
         else [])"
  by (simp only: fall_cart Cart.select_convs)

lemma fall_hasMembership:
  "hasItem Membership (fall (getCarts p)) =
     (fallDayLeagues p \<or> fallSpareOnly p \<or> 0 < fallRegularLeagues p \<or> fallSocial p = Some Dues)"
  unfolding fall_cart hasItem_types name_items_eq
  by (auto dest: slots_cases0)

lemma fall_leagueCount: "getLeagueCount (fall (getCarts p)) = nat (fallRegularLeagues p)"
  unfolding fall_cart getLeagueCount_map
  by (simp add: league_filter_slots0)

lemma winter_items:
  "cartItems (winter (getCarts p)) = map items
        ((if \<not> (fallDayLeagues p \<or> fallSpareOnly p \<or> 0 < fallRegularLeagues p
                 \<or> fallSocial p = Some Dues)
             \<and> (winterDayLeagues p \<or> winterSpareOnly p \<or> 0 < winterRegularLeagues p
                 \<or> winterSocial p = Some Dues) then [Membership] else []) @
         take (nat (winterRegularLeagues p))
           (drop (nat (fallRegularLeagues p)) [FirstLeague, SecondLeague, ThirdLeague]) @
         replicate (nat (winterRegularLeagues p) - (3 - nat (fallRegularLeagues p)))
           AdditionalLeague @
         (if winterRegularLeagues p = 0
          then (if winterDayLeagues p \<or> winterSpareOnly p
                then (if 3 \<le> fallRegularLeagues p then [BasicIceReduced] else [BasicIce])
                else if winterSocial p = Some NoDues
                        \<and> \<not> (fallRegularLeagues p = 0 \<and> fallSocial p = Some NoDues)
                        \<and> \<not> (fallDayLeagues p \<or> fallSpareOnly p \<or> 0 < fallRegularLeagues p
                               \<or> fallSocial p = Some Dues)
                then [Social] else [])
          else []))"
  using arg_cong [OF winter_cart [of p], of cartItems]
  by (simp only: Cart.select_convs)

lemma winter_discounts:
  "cartDiscounts (winter (getCarts p)) = map discounts
        ((if \<not> (fallDayLeagues p \<or> fallSpareOnly p \<or> 0 < fallRegularLeagues p
                 \<or> fallSocial p = Some Dues)
             \<and> (winterDayLeagues p \<or> winterSpareOnly p \<or> 0 < winterRegularLeagues p
                 \<or> winterSocial p = Some Dues) then [WinterOnly] else []) @
         (if getItems (winter (getCarts p)) \<noteq> []
          then (if discount p = Some Reciprocal
                   \<and> \<not> (fallDayLeagues p \<or> fallSpareOnly p \<or> 0 < fallRegularLeagues p
                          \<or> fallSocial p = Some Dues)
                   \<and> 0 < winterRegularLeagues p
                then [Reciprocal] else []) @
               (if discount p = Some Family then [Family]
                else if discount p = Some Student then [Student] else [])
          else []))"
  using arg_cong [OF winter_cart [of p], of cartDiscounts]
  by (simp only: Cart.select_convs)

lemma winter_hasMembership:
  "hasItem Membership (winter (getCarts p)) =
     (\<not> (fallDayLeagues p \<or> fallSpareOnly p \<or> 0 < fallRegularLeagues p
          \<or> fallSocial p = Some Dues)
      \<and> (winterDayLeagues p \<or> winterSpareOnly p \<or> 0 < winterRegularLeagues p
          \<or> winterSocial p = Some Dues))"
  unfolding hasItem_iff winter_items
  by (auto dest: slots_cases simp add: name_items_eq)

lemma winter_leagueCount: "getLeagueCount (winter (getCarts p)) = nat (winterRegularLeagues p)"
  unfolding getLeagueCount_def winter_items
  by (simp add: filter_map comp_def isLeague_items league_filter_slots)

lemma in_set_map_discounts: "(discounts n \<in> set (map discounts ds)) = (n \<in> set ds)"
  by (auto simp add: discounts_inj)

lemma filter_isLeague_map:
  "filter isLeague (map items ts) =
     map items (filter (\<lambda>t. t = FirstLeague \<or> t = SecondLeague \<or> t = ThirdLeague
        \<or> t = AdditionalLeague) ts)"
  by (induction ts) (simp_all add: isLeague_items)

lemma family_winter_total:
  "getTotal \<lparr>cartItems = [items Membership, items FirstLeague],
       cartDiscounts = [discounts WinterOnly, discounts Family]\<rparr> = Some (969 / 4)"
  by code_simp

section \<open>Properties of getCarts\<close>

text \<open>
  C1 (as amended).  For the selection with no fall league, one winter league, no day
  league, no sparing and no social choice, and the family discount, \<open>getCarts\<close> returns
  an empty fall cart and a winter cart whose items are membership and first league and
  whose discounts are winter-only and family, in that order.  The total of that winter
  cart is \<open>(135 + 155 - 35) * 0.95 = 242.25\<close>.
\<close>

theorem scenario_family_winter:
  "getItems (fall (getCarts \<lparr>fallRegularLeagues = 0, fallDayLeagues = False,
       fallSpareOnly = False, fallSocial = None, winterRegularLeagues = 1,
       winterDayLeagues = False, winterSpareOnly = False, winterSocial = None,
       discount = Some Family\<rparr>)) = []
   \<and> getDiscounts (fall (getCarts \<lparr>fallRegularLeagues = 0, fallDayLeagues = False,
       fallSpareOnly = False, fallSocial = None, winterRegularLeagues = 1,
       winterDayLeagues = False, winterSpareOnly = False, winterSocial = None,
       discount = Some Family\<rparr>)) = []
   \<and> getItems (winter (getCarts \<lparr>fallRegularLeagues = 0, fallDayLeagues = False,
       fallSpareOnly = False, fallSocial = None, winterRegularLeagues = 1,
       winterDayLeagues = False, winterSpareOnly = False, winterSocial = None,
       discount = Some Family\<rparr>)) = [items Membership, items FirstLeague]
   \<and> getDiscounts (winter (getCarts \<lparr>fallRegularLeagues = 0, fallDayLeagues = False,
       fallSpareOnly = False, fallSocial = None, winterRegularLeagues = 1,
       winterDayLeagues = False, winterSpareOnly = False, winterSocial = None,
       discount = Some Family\<rparr>)) = [discounts WinterOnly, discounts Family]
   \<and> getTotal (winter (getCarts \<lparr>fallRegularLeagues = 0, fallDayLeagues = False,
       fallSpareOnly = False, fallSocial = None, winterRegularLeagues = 1,
       winterDayLeagues = False, winterSpareOnly = False, winterSocial = None,
       discount = Some Family\<rparr>)) = Some (969 / 4)"
proof -
  let ?p = "\<lparr>fallRegularLeagues = 0, fallDayLeagues = False,
       fallSpareOnly = False, fallSocial = None, winterRegularLeagues = 1,
       winterDayLeagues = False, winterSpareOnly = False, winterSocial = None,
       discount = Some Family\<rparr>"
  have f: "fall (getCarts ?p) = \<lparr>cartItems = [], cartDiscounts = []\<rparr>"
    by (simp add: fall_cart)
  have w: "winter (getCarts ?p) = \<lparr>cartItems = [items Membership, items FirstLeague],
       cartDiscounts = [discounts WinterOnly, discounts Family]\<rparr>"
    by (rule Cart.equality) (simp_all add: winter_items winter_discounts getItems_def)
  show ?thesis
    unfolding w f
    by (simp add: getItems_def getDiscounts_def family_winter_total)
qed

text \<open>C1, as stated: the total of that winter cart is not 237.5.\<close>

theorem scenario_family_winter_not_237_5:
  "getTotal (winter (getCarts \<lparr>fallRegularLeagues = 0, fallDayLeagues = False,
       fallSpareOnly = False, fallSocial = None, winterRegularLeagues = 1,
       winterDayLeagues = False, winterSpareOnly = False, winterSocial = None,
       discount = Some Family\<rparr>)) \<noteq> Some (475 / 2)"
proof -
  let ?p = "\<lparr>fallRegularLeagues = 0, fallDayLeagues = False,
       fallSpareOnly = False, fallSocial = None, winterRegularLeagues = 1,
       winterDayLeagues = False, winterSpareOnly = False, winterSocial = None,
       discount = Some Family\<rparr>"
  have w: "winter (getCarts ?p) = \<lparr>cartItems = [items Membership, items FirstLeague],
       cartDiscounts = [discounts WinterOnly, discounts Family]\<rparr>"
    by (rule Cart.equality) (simp_all add: winter_items winter_discounts getItems_def)
  show ?thesis
    unfolding w by (simp add: family_winter_total)
qed

text \<open>
  C2.  In the winter cart, the family discount is added whenever the selection's discount
  is family and the cart has an item, and likewise for student: membership is not asked
  for.  The reciprocal discount is in the winter cart if and only if the selection's
  discount is reciprocal, the winter cart has membership, the fall cart has not, and the
  winter cart has a league.
\<close>

theorem winter_discount_rules:
  "(discount p = Some Family \<and> getItems (winter (getCarts p)) \<noteq> [] \<longrightarrow>
      discounts Family \<in> set (getDiscounts (winter (getCarts p))))
   \<and> (discount p = Some Student \<and> getItems (winter (getCarts p)) \<noteq> [] \<longrightarrow>
      discounts Student \<in> set (getDiscounts (winter (getCarts p))))
   \<and> (discounts Reciprocal \<in> set (getDiscounts (winter (getCarts p))) \<longleftrightarrow>
        discount p = Some Reciprocal \<and> hasItem Membership (winter (getCarts p))
        \<and> \<not> hasItem Membership (fall (getCarts p))
        \<and> 0 < getLeagueCount (winter (getCarts p)))"
proof (intro conjI impI)
  assume "discount p = Some Family \<and> getItems (winter (getCarts p)) \<noteq> []"
  then show "discounts Family \<in> set (getDiscounts (winter (getCarts p)))"
    unfolding getDiscounts_def winter_discounts in_set_map_discounts by simp
next
  assume "discount p = Some Student \<and> getItems (winter (getCarts p)) \<noteq> []"
  then show "discounts Student \<in> set (getDiscounts (winter (getCarts p)))"
    unfolding getDiscounts_def winter_discounts in_set_map_discounts by simp
next
  have nonempty: "hasItem Membership (winter (getCarts p)) \<Longrightarrow>
      getItems (winter (getCarts p)) \<noteq> []"
    by (auto simp add: hasItem_iff getItems_def)
  show "discounts Reciprocal \<in> set (getDiscounts (winter (getCarts p))) \<longleftrightarrow>
        discount p = Some Reciprocal \<and> hasItem Membership (winter (getCarts p))
        \<and> \<not> hasItem Membership (fall (getCarts p))
        \<and> 0 < getLeagueCount (winter (getCarts p))"
    using nonempty
    unfolding getDiscounts_def winter_discounts in_set_map_discounts
      winter_hasMembership fall_hasMembership winter_leagueCount
    by auto
qed

text \<open>One league in each season with the family discount: the winter cart holds the second
  league only, no membership, and gets the family discount.\<close>

theorem winter_discount_rules_witness:
  "discount \<lparr>fallRegularLeagues = 1, fallDayLeagues = False, fallSpareOnly = False,
       fallSocial = None, winterRegularLeagues = 1, winterDayLeagues = False,
       winterSpareOnly = False, winterSocial = None, discount = Some Family\<rparr> = Some Family
   \<and> getItems (winter (getCarts \<lparr>fallRegularLeagues = 1, fallDayLeagues = False,
       fallSpareOnly = False, fallSocial = None, winterRegularLeagues = 1,
       winterDayLeagues = False, winterSpareOnly = False, winterSocial = None,
       discount = Some Family\<rparr>)) = [items SecondLeague]
   \<and> \<not> hasItem Membership (winter (getCarts \<lparr>fallRegularLeagues = 1, fallDayLeagues = False,
       fallSpareOnly = False, fallSocial = None, winterRegularLeagues = 1,
       winterDayLeagues = False, winterSpareOnly = False, winterSocial = None,
       discount = Some Family\<rparr>))
   \<and> discounts Family \<in> set (getDiscounts (winter (getCarts \<lparr>fallRegularLeagues = 1,
       fallDayLeagues = False, fallSpareOnly = False, fallSocial = None,
       winterRegularLeagues = 1, winterDayLeagues = False, winterSpareOnly = False,
       winterSocial = None, discount = Some Family\<rparr>)))"
proof -
  let ?p = "\<lparr>fallRegularLeagues = 1, fallDayLeagues = False, fallSpareOnly = False,
       fallSocial = None, winterRegularLeagues = 1, winterDayLeagues = False,
       winterSpareOnly = False, winterSocial = None, discount = Some Family\<rparr>"
  have i: "getItems (winter (getCarts ?p)) = [items SecondLeague]"
    by (simp add: getItems_def winter_items)
  have m: "\<not> hasItem Membership (winter (getCarts ?p))"
    by (simp add: winter_hasMembership)
  from winter_discount_rules [of ?p] i
  have "discounts Family \<in> set (getDiscounts (winter (getCarts ?p)))"
    by simp
  with i m show ?thesis by simp
qed

text \<open>
  C4.  The league items of the fall cart are the first \<open>k\<close> of first, second and third
  league, in that order, followed by \<open>k - 3\<close> additional leagues, for \<open>k\<close> fall leagues
  requested; those of the winter cart are the first \<open>m\<close> of the slots that the fall left,
  followed by additional leagues for the rest.  With two leagues in each season the fall
  has first and second, the winter third and additional.
\<close>

theorem league_slots_shared:
  "filter isLeague (getItems (fall (getCarts p))) =
     map items (take (nat (fallRegularLeagues p)) [FirstLeague, SecondLeague, ThirdLeague] @
       replicate (nat (fallRegularLeagues p) - 3) AdditionalLeague)
   \<and> filter isLeague (getItems (winter (getCarts p))) =
     map items (take (nat (winterRegularLeagues p))
         (drop (nat (fallRegularLeagues p)) [FirstLeague, SecondLeague, ThirdLeague]) @
       replicate (nat (winterRegularLeagues p) - (3 - nat (fallRegularLeagues p)))
         AdditionalLeague)
   \<and> filter isLeague (getItems (fall (getCarts \<lparr>fallRegularLeagues = 2, fallDayLeagues = False,
       fallSpareOnly = False, fallSocial = None, winterRegularLeagues = 2,
       winterDayLeagues = False, winterSpareOnly = False, winterSocial = None,
       discount = None\<rparr>))) = [items FirstLeague, items SecondLeague]
   \<and> filter isLeague (getItems (winter (getCarts \<lparr>fallRegularLeagues = 2,
       fallDayLeagues = False, fallSpareOnly = False, fallSocial = None,
       winterRegularLeagues = 2, winterDayLeagues = False, winterSpareOnly = False,
       winterSocial = None, discount = None\<rparr>))) = [items ThirdLeague, items AdditionalLeague]"
proof -
  have f: "filter isLeague (getItems (fall (getCarts q))) =
     map items (take (nat (fallRegularLeagues q)) [FirstLeague, SecondLeague, ThirdLeague] @
       replicate (nat (fallRegularLeagues q) - 3) AdditionalLeague)" for q
    unfolding getItems_def fall_items filter_isLeague_map
    by (simp add: league_filter_slots0)
  have w: "filter isLeague (getItems (winter (getCarts q))) =
     map items (take (nat (winterRegularLeagues q))
         (drop (nat (fallRegularLeagues q)) [FirstLeague, SecondLeague, ThirdLeague]) @
       replicate (nat (winterRegularLeagues q) - (3 - nat (fallRegularLeagues q)))
         AdditionalLeague)" for q
    unfolding getItems_def winter_items filter_isLeague_map
    by (simp add: league_filter_slots)
  show ?thesis
    unfolding f w by simp
qed

text \<open>
  C5.  The winter cart has membership only if the fall cart has none, and a winter cart
  with membership holds the winter-only discount.
\<close>

theorem winter_membership_once:
  "(hasItem Membership (winter (getCarts p)) \<longrightarrow> \<not> hasItem Membership (fall (getCarts p)))
   \<and> (hasItem Membership (winter (getCarts p)) \<longrightarrow>
        discounts WinterOnly \<in> set (getDiscounts (winter (getCarts p))))"
  unfolding getDiscounts_def winter_discounts in_set_map_discounts
    winter_hasMembership fall_hasMembership
  by simp

theorem winter_membership_once_witness:
  "hasItem Membership (winter (getCarts \<lparr>fallRegularLeagues = 0, fallDayLeagues = False,
       fallSpareOnly = False, fallSocial = None, winterRegularLeagues = 1,
       winterDayLeagues = False, winterSpareOnly = False, winterSocial = None,
       discount = None\<rparr>))
   \<and> \<not> hasItem Membership (fall (getCarts \<lparr>fallRegularLeagues = 0, fallDayLeagues = False,
       fallSpareOnly = False, fallSocial = None, winterRegularLeagues = 1,
       winterDayLeagues = False, winterSpareOnly = False, winterSocial = None,
       discount = None\<rparr>))
   \<and> discounts WinterOnly \<in> set (getDiscounts (winter (getCarts \<lparr>fallRegularLeagues = 0,
       fallDayLeagues = False, fallSpareOnly = False, fallSocial = None,
       winterRegularLeagues = 1, winterDayLeagues = False, winterSpareOnly = False,
       winterSocial = None, discount = None\<rparr>)))"
proof -
  let ?p = "\<lparr>fallRegularLeagues = 0, fallDayLeagues = False, fallSpareOnly = False,
       fallSocial = None, winterRegularLeagues = 1, winterDayLeagues = False,
       winterSpareOnly = False, winterSocial = None, discount = None\<rparr>"
  have m: "hasItem Membership (winter (getCarts ?p))"
    by (simp add: winter_hasMembership)
  from winter_membership_once [of ?p] m show ?thesis by simp
qed

text \<open>
  C7.  The fall cart has discounts only if it has an item and has membership.  Then its
  discounts are the reciprocal one, if the selection's discount is reciprocal and the cart
  has a league, followed by what the family/student chain adds: the reciprocal test is a
  statement of its own before that chain.  So under the gate the reciprocal discount is
  in the fall cart exactly when the discount is reciprocal and the cart has a league.
\<close>

theorem fall_discount_rules:
  "getDiscounts (fall (getCarts p)) =
     (if length (getItems (fall (getCarts p))) > 0 \<and> hasItem Membership (fall (getCarts p))
      then (if discount p = Some Reciprocal \<and> getLeagueCount (fall (getCarts p)) > 0
            then [discounts Reciprocal] else []) @
           (if discount p = Some Family then [discounts Family]
            else if discount p = Some Student then [discounts Student] else [])
      else [])
   \<and> (length (getItems (fall (getCarts p))) > 0 \<and> hasItem Membership (fall (getCarts p)) \<longrightarrow>
        (discounts Reciprocal \<in> set (getDiscounts (fall (getCarts p))) \<longleftrightarrow>
           discount p = Some Reciprocal \<and> getLeagueCount (fall (getCarts p)) > 0))"
proof -
  have nonempty: "hasItem Membership (fall (getCarts p)) \<Longrightarrow>
      length (getItems (fall (getCarts p))) > 0"
    by (auto simp add: hasItem_iff getItems_def)
  have eq: "getDiscounts (fall (getCarts p)) =
     (if length (getItems (fall (getCarts p))) > 0 \<and> hasItem Membership (fall (getCarts p))
      then (if discount p = Some Reciprocal \<and> getLeagueCount (fall (getCarts p)) > 0
            then [discounts Reciprocal] else []) @
           (if discount p = Some Family then [discounts Family]
            else if discount p = Some Student then [discounts Student] else [])
      else [])"
    using nonempty
    unfolding getDiscounts_def fall_discounts fall_hasMembership fall_leagueCount
    by auto
  have iff: "discounts Reciprocal \<in> set (getDiscounts (fall (getCarts p))) \<longleftrightarrow>
           discount p = Some Reciprocal \<and> getLeagueCount (fall (getCarts p)) > 0"
    if "length (getItems (fall (getCarts p))) > 0 \<and> hasItem Membership (fall (getCarts p))"
    using that
    unfolding getDiscounts_def fall_discounts in_set_map_discounts fall_hasMembership
      fall_leagueCount
    by auto
  from eq iff show ?thesis by blast
qed

theorem fall_discount_rules_witness:
  "length (getItems (fall (getCarts \<lparr>fallRegularLeagues = 2, fallDayLeagues = False,
       fallSpareOnly = False, fallSocial = None, winterRegularLeagues = 0,
       winterDayLeagues = False, winterSpareOnly = False, winterSocial = None,
       discount = Some Reciprocal\<rparr>))) > 0
   \<and> hasItem Membership (fall (getCarts \<lparr>fallRegularLeagues = 2, fallDayLeagues = False,
       fallSpareOnly = False, fallSocial = None, winterRegularLeagues = 0,
       winterDayLeagues = False, winterSpareOnly = False, winterSocial = None,
       discount = Some Reciprocal\<rparr>))
   \<and> getLeagueCount (fall (getCarts \<lparr>fallRegularLeagues = 2, fallDayLeagues = False,
       fallSpareOnly = False, fallSocial = None, winterRegularLeagues = 0,
       winterDayLeagues = False, winterSpareOnly = False, winterSocial = None,
       discount = Some Reciprocal\<rparr>)) = 2
   \<and> getDiscounts (fall (getCarts \<lparr>fallRegularLeagues = 2, fallDayLeagues = False,
       fallSpareOnly = False, fallSocial = None, winterRegularLeagues = 0,
       winterDayLeagues = False, winterSpareOnly = False, winterSocial = None,
       discount = Some Reciprocal\<rparr>)) = [discounts Reciprocal]"
proof -
  let ?p = "\<lparr>fallRegularLeagues = 2, fallDayLeagues = False, fallSpareOnly = False,
       fallSocial = None, winterRegularLeagues = 0, winterDayLeagues = False,
       winterSpareOnly = False, winterSocial = None, discount = Some Reciprocal\<rparr>"
  have g: "length (getItems (fall (getCarts ?p))) > 0"
    by (simp add: getItems_def fall_items)
  have m: "hasItem Membership (fall (getCarts ?p))"
    by (simp add: fall_hasMembership)
  have l: "getLeagueCount (fall (getCarts ?p)) = 2"
    by (simp add: fall_leagueCount)
  from fall_discount_rules [of ?p] g m l show ?thesis by simp
qed

text \<open>
  C9.  When the winter asks for no regular league and for day leagues or sparing, its cart
  is the membership, unless the fall cart has it, and then \<open>basicIceReduced\<close> if the fall
  cart counts three leagues or more, \<open>basicIce\<close> otherwise.
\<close>

theorem winter_ice_price:
  "winterRegularLeagues p = 0 \<and> (winterDayLeagues p \<or> winterSpareOnly p) \<longrightarrow>
     getItems (winter (getCarts p)) =
       (if hasItem Membership (fall (getCarts p)) then [] else [items Membership]) @
       [if getLeagueCount (fall (getCarts p)) \<ge> 3 then items BasicIceReduced
        else items BasicIce]"
proof
  assume h: "winterRegularLeagues p = 0 \<and> (winterDayLeagues p \<or> winterSpareOnly p)"
  have three: "(3 \<le> nat (fallRegularLeagues p)) = (3 \<le> fallRegularLeagues p)"
    by arith
  from h show "getItems (winter (getCarts p)) =
       (if hasItem Membership (fall (getCarts p)) then [] else [items Membership]) @
       [if getLeagueCount (fall (getCarts p)) \<ge> 3 then items BasicIceReduced
        else items BasicIce]"
    unfolding getItems_def winter_items fall_hasMembership fall_leagueCount three
    by auto
qed

text \<open>Day leagues only in the fall and in the winter: the fall cart counts no league and the
  winter cart holds \<open>basicIce\<close> at the full price.\<close>

theorem winter_ice_price_witness:
  "winterRegularLeagues \<lparr>fallRegularLeagues = 0, fallDayLeagues = True, fallSpareOnly = False,
       fallSocial = None, winterRegularLeagues = 0, winterDayLeagues = True,
       winterSpareOnly = False, winterSocial = None, discount = None\<rparr> = 0
   \<and> winterDayLeagues \<lparr>fallRegularLeagues = 0, fallDayLeagues = True, fallSpareOnly = False,
       fallSocial = None, winterRegularLeagues = 0, winterDayLeagues = True,
       winterSpareOnly = False, winterSocial = None, discount = None\<rparr>
   \<and> getLeagueCount (fall (getCarts \<lparr>fallRegularLeagues = 0, fallDayLeagues = True,
       fallSpareOnly = False, fallSocial = None, winterRegularLeagues = 0,
       winterDayLeagues = True, winterSpareOnly = False, winterSocial = None,
       discount = None\<rparr>)) = 0
   \<and> getItems (winter (getCarts \<lparr>fallRegularLeagues = 0, fallDayLeagues = True,
       fallSpareOnly = False, fallSocial = None, winterRegularLeagues = 0,
       winterDayLeagues = True, winterSpareOnly = False, winterSocial = None,
       discount = None\<rparr>)) = [items BasicIce]"
proof -
  let ?p = "\<lparr>fallRegularLeagues = 0, fallDayLeagues = True, fallSpareOnly = False,
       fallSocial = None, winterRegularLeagues = 0, winterDayLeagues = True,
       winterSpareOnly = False, winterSocial = None, discount = None\<rparr>"
  have l: "getLeagueCount (fall (getCarts ?p)) = 0"
    by (simp add: fall_leagueCount)
  have m: "hasItem Membership (fall (getCarts ?p))"
    by (simp add: fall_hasMembership)
  from winter_ice_price [of ?p] l m show ?thesis by simp
qed

end
